theory Spec2Isabelle
  imports Main
begin

section \<open>The Sass plugin of the esbuild-based browser builder\<close>

text \<open>
  A shallow embedding of
  \<^verbatim>\<open>packages/angular_devkit/build_angular/src/builders/browser-esbuild/stylesheets/sass-plugin.ts\<close>.
  Strings are byte strings (the UTF-8 encoding of the JavaScript string); every
  separator the plugin splits on is ASCII, so splitting the bytes and splitting the
  UTF-16 code units give the same pieces. \<^verbatim>\<open>undefined\<close> is \<open>None\<close>. A thrown
  value is the \<open>Inl\<close> of a sum. Each \<^verbatim>\<open>await\<close> is the sequencing of the model:
  one load handler runs from its start to its end.
\<close>

subsection \<open>JavaScript strings and arrays\<close>

text \<open>\<^verbatim>\<open>s.split(sep)\<close> for a separator of one character: never the empty array.\<close>

fun js_split :: "char \<Rightarrow> string \<Rightarrow> string list" where
  "js_split sep [] = [[]]"
| "js_split sep (c # cs) =
     (if c = sep then [] # js_split sep cs
      else (case js_split sep cs of
              [] \<Rightarrow> [[c]]
            | p # ps \<Rightarrow> (c # p) # ps))"

text \<open>\<^verbatim>\<open>xs.join(sep)\<close>.\<close>

fun js_join :: "string \<Rightarrow> string list \<Rightarrow> string" where
  "js_join sep [] = []"
| "js_join sep [x] = x"
| "js_join sep (x # y # ys) = x @ sep @ js_join sep (y # ys)"

text \<open>\<^verbatim>\<open>xs[i]\<close>: \<^verbatim>\<open>undefined\<close> past the end.\<close>

fun js_index :: "'a list \<Rightarrow> nat \<Rightarrow> 'a option" where
  "js_index [] i = None"
| "js_index (x # xs) 0 = Some x"
| "js_index (x # xs) (Suc i) = js_index xs i"

text \<open>A value inside a template literal or a string concatenation.\<close>

definition js_string :: "string option \<Rightarrow> string" where
  "js_string v = (case v of None \<Rightarrow> ''undefined'' | Some s \<Rightarrow> s)"

text \<open>The truth value of a string that may be \<^verbatim>\<open>undefined\<close>.\<close>

definition truthy :: "string option \<Rightarrow> bool" where
  "truthy v = (case v of None \<Rightarrow> False | Some s \<Rightarrow> s \<noteq> [])"

definition startsWith :: "string \<Rightarrow> char \<Rightarrow> bool" where
  "startsWith s c = (case s of [] \<Rightarrow> False | d # _ \<Rightarrow> d = c)"

definition endsWith :: "string \<Rightarrow> char \<Rightarrow> bool" where
  "endsWith s c = (case rev s of [] \<Rightarrow> False | d # _ \<Rightarrow> d = c)"

text \<open>
  \<^verbatim>\<open>toLowerCase\<close> on the ASCII letters. The plugin compares the result with
  \<^verbatim>\<open>'.sass'\<close>, whose letters are the lower case of ASCII letters only.
\<close>

definition lower_char :: "char \<Rightarrow> char" where
  "lower_char c =
     (if 65 \<le> (of_char c :: nat) \<and> (of_char c :: nat) \<le> 90
      then char_of (of_char c + (32 :: nat)) else c)"

definition toLowerCase :: "string \<Rightarrow> string" where
  "toLowerCase s = map lower_char s"

subsection \<open>node:path on a POSIX host\<close>

text \<open>
  The functions the plugin imports from \<^verbatim>\<open>node:path\<close>, as Node's \<^verbatim>\<open>path.posix\<close>
  computes them. Node scans characters; the model works on the segments between
  slashes, which is the same function. \<open>cwd\<close> is \<^verbatim>\<open>process.cwd()\<close>, an absolute path.
\<close>

text \<open>
  \<^verbatim>\<open>normalizeString\<close>: empty segments and \<^verbatim>\<open>.\<close> are dropped, \<^verbatim>\<open>..\<close> removes
  the segment before it; at the start and after another \<^verbatim>\<open>..\<close> it is kept when the
  path is relative and dropped when it is absolute. \<open>res\<close> is the result so far, last
  segment first.
\<close>

fun normalizeString :: "bool \<Rightarrow> string list \<Rightarrow> string list \<Rightarrow> string list" where
  "normalizeString allowAboveRoot res [] = rev res"
| "normalizeString allowAboveRoot res (seg # segs) =
     (if seg = [] \<or> seg = ''.'' then normalizeString allowAboveRoot res segs
      else if seg = ''..'' then
        (case res of
           [] \<Rightarrow> normalizeString allowAboveRoot (if allowAboveRoot then [''..''] else []) segs
         | l # prev \<Rightarrow>
             if l = ''..''
             then normalizeString allowAboveRoot (if allowAboveRoot then ''..'' # res else res) segs
             else normalizeString allowAboveRoot prev segs)
      else normalizeString allowAboveRoot (seg # res) segs)"

definition path_normalize :: "string \<Rightarrow> string" where
  "path_normalize p =
     (if p = [] then ''.''
      else
        let isAbsolute = startsWith p CHR ''/'';
            trailingSeparator = endsWith p CHR ''/'';
            q = js_join ''/'' (normalizeString (\<not> isAbsolute) [] (js_split CHR ''/'' p))
        in if q = [] then (if isAbsolute then ''/'' else if trailingSeparator then ''./'' else ''.'')
           else (if isAbsolute then ''/'' else []) @ q @ (if trailingSeparator then ''/'' else []))"

text \<open>\<^verbatim>\<open>join(...paths)\<close>: zero-length arguments are ignored.\<close>

definition join :: "string list \<Rightarrow> string" where
  "join paths =
     (let joined = filter (\<lambda>arg. arg \<noteq> []) paths
      in if joined = [] then ''.'' else path_normalize (js_join ''/'' joined))"

text \<open>
  \<^verbatim>\<open>dirname(path)\<close>: the path up to the slash before its last component; trailing
  slashes are skipped and the first character is never looked at.
\<close>

definition dirname :: "string \<Rightarrow> string" where
  "dirname p =
     (case p of
        [] \<Rightarrow> ''.''
      | c # cs \<Rightarrow>
          (case dropWhile (\<lambda>d. d \<noteq> CHR ''/'') (dropWhile (\<lambda>d. d = CHR ''/'') (rev cs)) of
             [] \<Rightarrow> (if c = CHR ''/'' then ''/'' else ''.'')
           | s # pre \<Rightarrow>
               if c = CHR ''/'' \<and> pre = [] then ''//'' else c # rev pre))"

text \<open>
  \<^verbatim>\<open>extname(path)\<close>: from the last dot of the last component, and empty when that
  component has no dot, starts with its only dot, or is \<^verbatim>\<open>..\<close>.
\<close>

definition basename_of :: "string \<Rightarrow> string" where
  "basename_of p =
     rev (takeWhile (\<lambda>d. d \<noteq> CHR ''/'') (dropWhile (\<lambda>d. d = CHR ''/'') (rev p)))"

definition extname :: "string \<Rightarrow> string" where
  "extname p =
     (let base = basename_of p;
          ext = rev (takeWhile (\<lambda>d. d \<noteq> CHR ''.'') (rev base));
          stem = take (length base - length ext - 1) base
      in if CHR ''.'' \<notin> set base \<or> stem = [] \<or> base = ''..'' then []
         else CHR ''.'' # ext)"

text \<open>
  \<^verbatim>\<open>resolve(path)\<close> with one argument: the path itself when it is absolute, else the
  path under the working directory; normalized, with no trailing slash.
\<close>

definition path_resolve :: "string \<Rightarrow> string \<Rightarrow> string" where
  "path_resolve cwd p =
     (let given = (if p = [] then [] else p @ ''/'');
          resolvedPath =
            (if startsWith p CHR ''/'' \<or> cwd = [] then given else cwd @ ''/'' @ given);
          resolvedAbsolute = startsWith resolvedPath CHR ''/'';
          q = js_join ''/''
                (normalizeString (\<not> resolvedAbsolute) [] (js_split CHR ''/'' resolvedPath))
      in if resolvedAbsolute then CHR ''/'' # q else if q = [] then ''.'' else q)"

text \<open>
  \<^verbatim>\<open>relative(from, to)\<close>: both are resolved; the common leading segments are
  dropped, every segment left of \<^verbatim>\<open>from\<close> becomes \<^verbatim>\<open>..\<close>, and the segments
  left of \<^verbatim>\<open>to\<close> follow.
\<close>

fun drop_common :: "string list \<Rightarrow> string list \<Rightarrow> string list \<times> string list" where
  "drop_common (x # xs) (y # ys) = (if x = y then drop_common xs ys else (x # xs, y # ys))"
| "drop_common xs ys = (xs, ys)"

definition segments :: "string \<Rightarrow> string list" where
  "segments p = filter (\<lambda>s. s \<noteq> []) (js_split CHR ''/'' p)"

definition relative :: "string \<Rightarrow> string \<Rightarrow> string \<Rightarrow> string" where
  "relative cwd from to =
     (if from = to then []
      else
        let (fs, ts) = drop_common (segments (path_resolve cwd from)) (segments (path_resolve cwd to))
        in js_join ''/'' (map (\<lambda>_. ''..'') fs @ ts))"

text \<open>
  A segment that normalization keeps as it is: not empty, without a slash, and
  neither \<^verbatim>\<open>.\<close> nor \<^verbatim>\<open>..\<close>.
\<close>

definition plain_segment :: "string \<Rightarrow> bool" where
  "plain_segment s \<longleftrightarrow> s \<noteq> [] \<and> CHR ''/'' \<notin> set s \<and> s \<noteq> ''.'' \<and> s \<noteq> ''..''"

subsection \<open>node:url\<close>

text \<open>
  The URLs the plugin handles are file URLs: the entry point's is made by
  \<^verbatim>\<open>pathToFileURL\<close>, the importer returns file URLs, and the compiler reports the
  files it loaded. A \<^verbatim>\<open>URL\<close> object is identified with the absolute path it stands
  for (so percent-encoding is below the model), kept without the slash every such path
  starts with.
\<close>

datatype url = FileURL string

definition fileURLToPath :: "url \<Rightarrow> string" where
  "fileURLToPath u = (case u of FileURL p \<Rightarrow> CHR ''/'' # p)"

text \<open>\<^verbatim>\<open>pathToFileURL(path)\<close> resolves the path and keeps its trailing slash.\<close>

definition pathToFileURL :: "string \<Rightarrow> string \<Rightarrow> url" where
  "pathToFileURL cwd p =
     (let resolved = path_resolve cwd p;
          resolved' = (if endsWith p CHR ''/'' \<and> \<not> endsWith resolved CHR ''/''
                       then resolved @ ''/'' else resolved)
      in FileURL (if startsWith resolved' CHR ''/'' then tl resolved' else resolved'))"

subsection \<open>Values a promise can reject with\<close>

text \<open>Sass's \<^verbatim>\<open>SourceLocation\<close>, \<^verbatim>\<open>SourceSpan\<close> and \<^verbatim>\<open>Exception\<close>.\<close>

record SourceLocation =
  src_offset :: int
  src_line :: int
  src_column :: int

record SourceSpan =
  span_start :: SourceLocation
  span_end :: SourceLocation
  span_url :: "url option"
  span_text :: string
  span_context :: "string option"

record Exception =
  message :: string
  sassMessage :: string
  sassStack :: string
  span :: SourceSpan

text \<open>
  A caught value has the type \<^verbatim>\<open>unknown\<close>: a primitive, an \<^verbatim>\<open>Error\<close> object (its
  name and message), or a Sass \<^verbatim>\<open>Exception\<close>, the objects that carry
  \<^verbatim>\<open>sassMessage\<close>. \<open>JsRuntimeError\<close> is an error object that Node or the JavaScript
  engine throws (a \<^verbatim>\<open>TypeError\<close>, a \<^verbatim>\<open>URIError\<close>), kept by its name: its code
  and the wording of its message vary with the platform and are not modelled.
\<close>

datatype thrown =
    JsUndefined
  | JsNull
  | JsBoolean bool
  | JsNumber int
  | JsString string
  | JsError string string
  | JsRuntimeError string
  | JsSassException Exception

definition js_truthy :: "thrown \<Rightarrow> bool" where
  "js_truthy v =
     (case v of
        JsUndefined \<Rightarrow> False
      | JsNull \<Rightarrow> False
      | JsBoolean b \<Rightarrow> b
      | JsNumber n \<Rightarrow> n \<noteq> 0
      | JsString s \<Rightarrow> s \<noteq> []
      | JsError _ _ \<Rightarrow> True
      | JsRuntimeError _ \<Rightarrow> True
      | JsSassException _ \<Rightarrow> True)"

definition js_typeof :: "thrown \<Rightarrow> string" where
  "js_typeof v =
     (case v of
        JsUndefined \<Rightarrow> ''undefined''
      | JsNull \<Rightarrow> ''object''
      | JsBoolean _ \<Rightarrow> ''boolean''
      | JsNumber _ \<Rightarrow> ''number''
      | JsString _ \<Rightarrow> ''string''
      | JsError _ _ \<Rightarrow> ''object''
      | JsRuntimeError _ \<Rightarrow> ''object''
      | JsSassException _ \<Rightarrow> ''object'')"

text \<open>
  \<^verbatim>\<open>key in v\<close> for the data properties of an object. The \<^verbatim>\<open>TypeError\<close>s of the
  model are Node's own, which carry a \<^verbatim>\<open>code\<close>; the engine's \<^verbatim>\<open>URIError\<close> has none.
\<close>

definition js_in :: "string \<Rightarrow> thrown \<Rightarrow> bool" where
  "js_in key v =
     (case v of
        JsError _ _ \<Rightarrow> key \<in> set [''name'', ''message'', ''stack'']
      | JsRuntimeError name \<Rightarrow>
          key \<in> set [''name'', ''message'', ''stack''] \<or> (key = ''code'' \<and> name = ''TypeError'')
      | JsSassException _ \<Rightarrow>
          key \<in> set [''name'', ''message'', ''stack'', ''sassMessage'', ''sassStack'', ''span'']
      | _ \<Rightarrow> False)"

definition isSassException :: "thrown \<Rightarrow> bool" where
  "isSassException error \<longleftrightarrow>
     js_truthy error \<and> js_typeof error = ''object'' \<and> js_in ''sassMessage'' error"

subsection \<open>\<^verbatim>\<open>fileURLToPath\<close> on a string\<close>

text \<open>
  \<^verbatim>\<open>fileURLToPath(source)\<close> on a string parses it with \<^verbatim>\<open>new URL\<close> first.
  The URL parser strips leading and trailing C0 controls and spaces, removes tabs and
  newlines, and then needs a scheme: a letter, then letters, digits, \<^verbatim>\<open>+\<close>,
  \<^verbatim>\<open>-\<close> or \<^verbatim>\<open>.\<close>, then a colon. A string without one is not a URL.
\<close>

definition c0_or_space :: "char \<Rightarrow> bool" where
  "c0_or_space c \<longleftrightarrow> (of_char c :: nat) \<le> 32"

definition tab_or_newline :: "char \<Rightarrow> bool" where
  "tab_or_newline c \<longleftrightarrow> (of_char c :: nat) \<in> set [9, 10, 13]"

definition url_input :: "string \<Rightarrow> string" where
  "url_input s =
     filter (\<lambda>c. \<not> tab_or_newline c)
       (rev (dropWhile c0_or_space (rev (dropWhile c0_or_space s))))"

definition ascii_alpha :: "char \<Rightarrow> bool" where
  "ascii_alpha c \<longleftrightarrow>
     (65 \<le> (of_char c :: nat) \<and> (of_char c :: nat) \<le> 90) \<or>
     (97 \<le> (of_char c :: nat) \<and> (of_char c :: nat) \<le> 122)"

definition scheme_char :: "char \<Rightarrow> bool" where
  "scheme_char c \<longleftrightarrow>
     ascii_alpha c \<or> (48 \<le> (of_char c :: nat) \<and> (of_char c :: nat) \<le> 57) \<or>
     c \<in> set ''+-.''"

text \<open>The scheme of a string, in lower case, and what follows its colon.\<close>

definition url_scheme :: "string \<Rightarrow> (string \<times> string) option" where
  "url_scheme s =
     (case url_input s of
        [] \<Rightarrow> None
      | c # cs \<Rightarrow>
          if ascii_alpha c then
            (case dropWhile scheme_char cs of
               [] \<Rightarrow> None
             | d # rest \<Rightarrow>
                 if d = CHR '':'' then Some (toLowerCase (c # takeWhile scheme_char cs), rest)
                 else None)
          else None)"

text \<open>
  A URL of the scheme \<^verbatim>\<open>file\<close> is parsed as the URL Standard prescribes (Node's
  parser follows it), without a base URL. What \<^verbatim>\<open>fileURLToPath\<close> reads of the
  result is the host and the path name; the query and the fragment are parsed and
  ignored.
\<close>

definition is_slash :: "char \<Rightarrow> bool" where
  "is_slash c \<longleftrightarrow> c = CHR ''/'' \<or> c = CHR 0x5C"

definition query_or_fragment :: "char \<Rightarrow> bool" where
  "query_or_fragment c \<longleftrightarrow> c = CHR ''?'' \<or> c = CHR ''#''"

definition hex_digit :: "char \<Rightarrow> nat option" where
  "hex_digit c =
     (let n = of_char c :: nat
      in if 48 \<le> n \<and> n \<le> 57 then Some (n - 48)
         else if 65 \<le> n \<and> n \<le> 70 then Some (n - 55)
         else if 97 \<le> n \<and> n \<le> 102 then Some (n - 87)
         else None)"

text \<open>
  The standard's percent-decode, which the host goes through: an escape becomes its
  byte, and a \<^verbatim>\<open>%\<close> that starts no escape stays.
\<close>

fun percent_decode :: "string \<Rightarrow> nat list" where
  "percent_decode (c # h1 # h2 # rest) =
     (case (c = CHR ''%'', hex_digit h1, hex_digit h2) of
        (True, Some a, Some b) \<Rightarrow> (16 * a + b) # percent_decode rest
      | _ \<Rightarrow> of_char c # percent_decode (h1 # h2 # rest))"
| "percent_decode (c # cs) = of_char c # percent_decode cs"
| "percent_decode [] = []"

text \<open>
  The host of a file URL is what stands between \<^verbatim>\<open>file://\<close> and the next slash,
  backslash, \<^verbatim>\<open>?\<close> or \<^verbatim>\<open>#\<close>. A host that parses to \<^verbatim>\<open>localhost\<close> becomes the
  empty host. The host parser percent-decodes and applies the standard's
  \<^emph>\<open>domain to ASCII\<close>: on a domain of ASCII characters that is the lower case, and
  a domain with a character outside ASCII goes through Unicode's IDNA tables, which are
  a parameter, \<open>domainToASCII\<close> (the empty string when the domain is invalid). A host
  in brackets is an IPv6 address or no host at all.
\<close>

definition host_is_localhost :: "(string \<Rightarrow> string) \<Rightarrow> string \<Rightarrow> bool" where
  "host_is_localhost domainToASCII buffer =
     (if startsWith buffer CHR ''['' then False
      else
        let domain = percent_decode buffer
        in if list_all (\<lambda>b. b < 128) domain
           then toLowerCase (map char_of domain) = ''localhost''
           else domainToASCII (map char_of domain) = ''localhost'')"

text \<open>
  The path state of the parser, on the segments between slashes (a backslash counts
  as a slash): \<^verbatim>\<open>.\<close> is dropped and \<^verbatim>\<open>..\<close> removes the segment before it, also
  when the dot is written \<^verbatim>\<open>%2e\<close>; after the last segment either leaves an empty
  one. A Windows drive letter is kept through \<^verbatim>\<open>..\<close> when it is the first segment,
  where \<^verbatim>\<open>C|\<close> is read as \<^verbatim>\<open>C:\<close>.
\<close>

definition windows_drive_letter :: "string \<Rightarrow> bool" where
  "windows_drive_letter s =
     (case s of
        [a, b] \<Rightarrow> ascii_alpha a \<and> (b = CHR '':'' \<or> b = CHR ''|'')
      | _ \<Rightarrow> False)"

definition normalized_windows_drive_letter :: "string \<Rightarrow> bool" where
  "normalized_windows_drive_letter s \<longleftrightarrow> windows_drive_letter s \<and> endsWith s CHR '':''"

definition single_dot :: "string \<Rightarrow> bool" where
  "single_dot buffer \<longleftrightarrow> toLowerCase buffer \<in> set [''.'', ''%2e'']"

definition double_dot :: "string \<Rightarrow> bool" where
  "double_dot buffer \<longleftrightarrow> toLowerCase buffer \<in> set [''..'', ''.%2e'', ''%2e.'', ''%2e%2e'']"

definition shorten :: "string list \<Rightarrow> string list" where
  "shorten path =
     (case path of
        [p] \<Rightarrow> if normalized_windows_drive_letter p then path else []
      | _ \<Rightarrow> butlast path)"

definition append_segment :: "string list \<Rightarrow> string \<Rightarrow> string list" where
  "append_segment path buffer =
     path @ [if path = [] \<and> windows_drive_letter buffer then take 1 buffer @ '':'' else buffer]"

fun path_state :: "string list \<Rightarrow> string list \<Rightarrow> string list" where
  "path_state path [] = path"
| "path_state path [buffer] =
     (if double_dot buffer then shorten path @ [[]]
      else if single_dot buffer then path @ [[]]
      else append_segment path buffer)"
| "path_state path (buffer # later) =
     path_state (if double_dot buffer then shorten path
                 else if single_dot buffer then path
                 else append_segment path buffer) later"

text \<open>
  The parser escapes the characters of the path percent-encode set, byte by byte:
  the C0 controls, the space, everything from \<^verbatim>\<open>DEL\<close> on (so every byte of a
  character outside ASCII), and some punctuation. A \<^verbatim>\<open>%\<close> of the input stays as it
  is. The path name is every segment after a slash. (Which punctuation is escaped makes
  no difference to \<^verbatim>\<open>fileURLToPath\<close>: \<^verbatim>\<open>decodeURIComponent\<close> undoes every
  escape.)
\<close>

definition hex_char :: "nat \<Rightarrow> char" where
  "hex_char n = ''0123456789ABCDEF'' ! (n mod 16)"

definition in_path_percent_encode_set :: "char \<Rightarrow> bool" where
  "in_path_percent_encode_set c \<longleftrightarrow>
     (of_char c :: nat) \<le> 32 \<or> 127 \<le> (of_char c :: nat) \<or>
     c \<in> set [CHR 0x22, CHR ''#'', CHR ''<'', CHR ''>'', CHR ''?'', CHR 0x5E, CHR 0x60,
              CHR ''{'', CHR ''}'']"

definition percent_encode :: "string \<Rightarrow> string" where
  "percent_encode s =
     concat (map (\<lambda>c. if in_path_percent_encode_set c
                       then [CHR ''%'', hex_char (of_char c div 16), hex_char (of_char c mod 16)]
                       else [c]) s)"

definition url_pathname :: "string \<Rightarrow> string" where
  "url_pathname input =
     (let segs = js_split CHR ''/''
                   (map (\<lambda>c. if is_slash c then CHR ''/'' else c)
                      (takeWhile (\<lambda>c. \<not> query_or_fragment c) input))
      in concat (map (\<lambda>seg. CHR ''/'' # percent_encode seg) (path_state [] segs)))"

text \<open>
  What follows \<^verbatim>\<open>file:\<close>, through the file state, the file slash state and the
  file host state: \<open>None\<close> when the host does not parse or, parsed, is not empty (in
  both cases \<^verbatim>\<open>fileURLToPath\<close> throws a \<^verbatim>\<open>TypeError\<close> on a POSIX host), else
  the path name. With fewer than two slashes after the colon there is no host and the
  path starts at once; a drive letter in the place of the host is the first segment of
  the path.
\<close>

definition file_url_pathname :: "(string \<Rightarrow> string) \<Rightarrow> string \<Rightarrow> string option" where
  "file_url_pathname domainToASCII rest =
     (case rest of
        [] \<Rightarrow> Some (url_pathname rest)
      | c # r1 \<Rightarrow>
          if \<not> is_slash c then Some (url_pathname rest)
          else
            (case r1 of
               [] \<Rightarrow> Some (url_pathname r1)
             | d # r2 \<Rightarrow>
                 if \<not> is_slash d then Some (url_pathname r1)
                 else
                   let buffer = takeWhile (\<lambda>e. \<not> is_slash e \<and> \<not> query_or_fragment e) r2;
                       remaining = dropWhile (\<lambda>e. \<not> is_slash e \<and> \<not> query_or_fragment e) r2
                   in if windows_drive_letter buffer then Some (url_pathname (buffer @ remaining))
                      else if buffer = [] \<or> host_is_localhost domainToASCII buffer
                      then Some (url_pathname
                                   (case remaining of
                                      [] \<Rightarrow> []
                                    | e # r3 \<Rightarrow> if is_slash e then r3 else remaining))
                      else None))"

text \<open>
  Node's \<^verbatim>\<open>getPathFromURLPosix\<close> refuses a path name with an escaped slash: a
  \<^verbatim>\<open>%\<close>, then \<^verbatim>\<open>2\<close>, then \<^verbatim>\<open>f\<close> or \<^verbatim>\<open>F\<close>.
\<close>

fun has_encoded_slash :: "string \<Rightarrow> bool" where
  "has_encoded_slash (a # b # c # rest) =
     ((a = CHR ''%'' \<and> b = CHR ''2'' \<and> (c = CHR ''f'' \<or> c = CHR ''F''))
      \<or> has_encoded_slash (b # c # rest))"
| "has_encoded_slash _ = False"

text \<open>
  \<^verbatim>\<open>decodeURIComponent\<close>: every escape becomes its byte. A \<^verbatim>\<open>%\<close> without two
  hexadecimal digits is malformed, and the escapes of the bytes from 128 on must spell
  the UTF-8 encoding of a character, escape after escape; otherwise it throws a
  \<^verbatim>\<open>URIError\<close>.
\<close>

datatype code_unit = Literal char | Escape nat | Malformed

fun escapes :: "string \<Rightarrow> code_unit list" where
  "escapes [] = []"
| "escapes (c # cs) =
     (if c \<noteq> CHR ''%'' then Literal c # escapes cs
      else
        (case cs of
           h1 # h2 # rest \<Rightarrow>
             (case (hex_digit h1, hex_digit h2) of
                (Some a, Some b) \<Rightarrow> Escape (16 * a + b) # escapes rest
              | _ \<Rightarrow> [Malformed])
         | _ \<Rightarrow> [Malformed]))"

definition byte_between :: "nat \<Rightarrow> nat \<Rightarrow> nat \<Rightarrow> bool" where
  "byte_between lo hi b \<longleftrightarrow> lo \<le> b \<and> b \<le> hi"

fun decode_units :: "code_unit list \<Rightarrow> string option" where
  "decode_units [] = Some []"
| "decode_units (Literal c # us) = map_option (\<lambda>s. c # s) (decode_units us)"
| "decode_units (Malformed # us) = None"
| "decode_units (Escape b # us) =
     (if b < 128 then map_option (\<lambda>s. char_of b # s) (decode_units us)
      else if byte_between 194 223 b then
        (case us of
           Escape b1 # r \<Rightarrow>
             if byte_between 128 191 b1
             then map_option (\<lambda>s. map char_of [b, b1] @ s) (decode_units r) else None
         | _ \<Rightarrow> None)
      else if byte_between 224 239 b then
        (case us of
           Escape b1 # Escape b2 # r \<Rightarrow>
             if byte_between (if b = 224 then 160 else 128) (if b = 237 then 159 else 191) b1
                \<and> byte_between 128 191 b2
             then map_option (\<lambda>s. map char_of [b, b1, b2] @ s) (decode_units r) else None
         | _ \<Rightarrow> None)
      else if byte_between 240 244 b then
        (case us of
           Escape b1 # Escape b2 # Escape b3 # r \<Rightarrow>
             if byte_between (if b = 240 then 144 else 128) (if b = 244 then 143 else 191) b1
                \<and> byte_between 128 191 b2 \<and> byte_between 128 191 b3
             then map_option (\<lambda>s. map char_of [b, b1, b2, b3] @ s) (decode_units r) else None
         | _ \<Rightarrow> None)
      else None)"

definition decodeURIComponent :: "string \<Rightarrow> thrown + string" where
  "decodeURIComponent s =
     (case decode_units (escapes s) of
        None \<Rightarrow> Inl (JsRuntimeError ''URIError'')
      | Some decoded \<Rightarrow> Inr decoded)"

text \<open>
  \<^verbatim>\<open>fileURLToPath(source)\<close> on a POSIX host. It throws a \<^verbatim>\<open>TypeError\<close> on a
  string that is not a URL (\<^verbatim>\<open>ERR_INVALID_URL\<close>), on a URL of another scheme
  (\<^verbatim>\<open>ERR_INVALID_URL_SCHEME\<close>), on a host that is not empty
  (\<^verbatim>\<open>ERR_INVALID_FILE_URL_HOST\<close>) and on an escaped slash
  (\<^verbatim>\<open>ERR_INVALID_FILE_URL_PATH\<close>); otherwise it returns the decoded path name.
\<close>

definition fileURLToPath_string :: "(string \<Rightarrow> string) \<Rightarrow> string \<Rightarrow> thrown + string" where
  "fileURLToPath_string domainToASCII s =
     (case url_scheme s of
        None \<Rightarrow> Inl (JsRuntimeError ''TypeError'')
      | Some (scheme, rest) \<Rightarrow>
          if scheme \<noteq> ''file'' then Inl (JsRuntimeError ''TypeError'')
          else
            (case file_url_pathname domainToASCII rest of
               None \<Rightarrow> Inl (JsRuntimeError ''TypeError'')
             | Some pathname \<Rightarrow>
                 if has_encoded_slash pathname then Inl (JsRuntimeError ''TypeError'')
                 else decodeURIComponent pathname))"

subsection \<open>The bundler's resolver\<close>

text \<open>
  esbuild's \<^verbatim>\<open>build.resolve(url, {kind, resolveDir})\<close> answers with a result whose
  \<^verbatim>\<open>path\<close> is the empty string when nothing was found. The bundler is a parameter:
  \<open>resolve\<close> is its answer to a request, \<open>absWorkingDir\<close> is
  \<^verbatim>\<open>build.initialOptions.absWorkingDir\<close>. Every function that calls the resolver
  also returns the requests it made, in order.
\<close>

record BuildResolveOptions =
  kind :: string
  resolveDir :: "string option"

record ResolveResult =
  path :: string

type_synonym resolve_call = "string \<times> BuildResolveOptions"

record PluginBuild =
  resolve :: "string \<Rightarrow> BuildResolveOptions \<Rightarrow> ResolveResult"
  absWorkingDir :: "string option"

text \<open>
  The loop of \<^verbatim>\<open>resolveUrl\<close> over \<^verbatim>\<open>previousResolvedModules\<close> (a set, walked in
  insertion order): it stops at the first root that gives a path and otherwise keeps
  the answer for the last root.
\<close>

fun resolve_previous ::
  "PluginBuild \<Rightarrow> string \<Rightarrow> string list \<Rightarrow> ResolveResult \<Rightarrow> ResolveResult \<times> resolve_call list" where
  "resolve_previous build url [] result = (result, [])"
| "resolve_previous build url (previous # rest) result =
     (let opts = \<lparr>kind = ''import-rule'', resolveDir = Some previous\<rparr>;
          result' = resolve build url opts
      in if path result' \<noteq> [] then (result', [(url, opts)])
         else (case resolve_previous build url rest result' of
                 (r, calls) \<Rightarrow> (r, (url, opts) # calls)))"

definition set_values :: "string list option \<Rightarrow> string list" where
  "set_values previousResolvedModules =
     (case previousResolvedModules of None \<Rightarrow> [] | Some ms \<Rightarrow> ms)"

definition resolveUrl ::
  "PluginBuild \<Rightarrow> string \<Rightarrow> string list option \<Rightarrow> ResolveResult \<times> resolve_call list" where
  "resolveUrl build url previousResolvedModules =
     (let opts = \<lparr>kind = ''import-rule'', resolveDir = absWorkingDir build\<rparr>;
          result = resolve build url opts
      in if path result = [] \<and> set_values previousResolvedModules \<noteq> []
         then (case resolve_previous build url (set_values previousResolvedModules) result of
                 (r, calls) \<Rightarrow> (r, (url, opts) # calls))
         else (result, [(url, opts)]))"

subsection \<open>The custom importer\<close>

text \<open>
  The path the importer builds from a resolved package manifest:
  \<^verbatim>\<open>join(dirname(packageResult.path), !hasScope && nameOrFirstPath ? nameOrFirstPath : '', ...pathPart)\<close>.
\<close>

definition deep_import_path :: "string \<Rightarrow> bool \<Rightarrow> string option \<Rightarrow> string list \<Rightarrow> string" where
  "deep_import_path manifest hasScope nameOrFirstPath pathPart =
     join (dirname manifest
           # (if \<not> hasScope \<and> truthy nameOrFirstPath then js_string nameOrFirstPath else [])
           # pathPart)"

definition hasScope_of :: "string list \<Rightarrow> bool" where
  "hasScope_of parts \<longleftrightarrow>
     length parts \<ge> 2 \<and> startsWith (js_string (js_index parts 0)) CHR ''@''"

definition packageName_of :: "string list \<Rightarrow> string" where
  "packageName_of parts =
     (if hasScope_of parts
      then js_string (js_index parts 0) @ ''/'' @ js_string (js_index parts 1)
      else js_string (js_index parts 0))"

text \<open>\<^verbatim>\<open>findFileUrl(url, {previousResolvedModules})\<close>; \<open>None\<close> is \<^verbatim>\<open>null\<close>.\<close>

definition findFileUrl ::
  "PluginBuild \<Rightarrow> string \<Rightarrow> string \<Rightarrow> string list option \<Rightarrow> url option \<times> resolve_call list" where
  "findFileUrl build cwd url previousResolvedModules =
     (case resolveUrl build url None of
        (result, t1) \<Rightarrow>
          if path result \<noteq> [] then (Some (pathToFileURL cwd (path result)), t1)
          else
            let parts = js_split CHR ''/'' url;
                hasScope = hasScope_of parts;
                nameOrFirstPath = js_index parts 1;
                pathPart = drop 2 parts;
                packageName = packageName_of parts
            in (case resolveUrl build (packageName @ ''/package.json'') None of
                  (packageResult, t2) \<Rightarrow>
                    if path packageResult \<noteq> []
                    then (Some (pathToFileURL cwd
                                  (deep_import_path (path packageResult) hasScope nameOrFirstPath pathPart)),
                          t1 @ t2)
                    else
                      (case resolveUrl build url previousResolvedModules of
                         (result', t3) \<Rightarrow>
                           if path result' \<noteq> []
                           then (Some (pathToFileURL cwd (path result')), t1 @ t2 @ t3)
                           else
                             (case resolveUrl build (packageName @ ''/package.json'')
                                     previousResolvedModules of
                                (packageResult', t4) \<Rightarrow>
                                  if path packageResult' \<noteq> []
                                  then (Some (pathToFileURL cwd
                                                (deep_import_path (path packageResult') hasScope
                                                   nameOrFirstPath pathPart)),
                                        t1 @ t2 @ t3 @ t4)
                                  else (None, t1 @ t2 @ t3 @ t4)))))"

subsection \<open>Diagnostics\<close>

text \<open>esbuild's \<^verbatim>\<open>PartialMessage\<close> with the fields the plugin sets.\<close>

record Note =
  note_text :: string

record Location =
  loc_file :: "string option"
  lineText :: "string option"
  line :: int
  column :: int

record PartialMessage =
  msg_text :: string
  msg_location :: "Location option"
  msg_notes :: "Note list option"

text \<open>The second argument of Sass's \<^verbatim>\<open>logger.warn\<close>.\<close>

record LoggerWarnOptions =
  deprecation :: bool
  warn_span :: "SourceSpan option"

text \<open>The message \<^verbatim>\<open>logger.warn\<close> pushes onto \<^verbatim>\<open>warnings\<close>.\<close>

definition warn :: "string \<Rightarrow> LoggerWarnOptions \<Rightarrow> PartialMessage" where
  "warn text opts =
     \<lparr>msg_text = (if deprecation opts then ''Deprecation'' else text),
      msg_location =
        (case warn_span opts of
           None \<Rightarrow> None
         | Some sp \<Rightarrow>
             Some \<lparr>loc_file = (case span_url sp of None \<Rightarrow> None | Some u \<Rightarrow> Some (fileURLToPath u)),
                   lineText = span_context sp,
                   line = src_line (span_start sp) + 1,
                   column = src_column (span_start sp)\<rparr>),
      msg_notes = (if deprecation opts then Some [\<lparr>note_text = text\<rparr>] else None)\<rparr>"

subsection \<open>The source map comment\<close>

text \<open>
  \<^verbatim>\<open>RawSourceMap\<close>. \<^verbatim>\<open>JSON.stringify\<close> of a source map is a parameter (the order of
  the keys is the compiler's).
\<close>

record RawSourceMap =
  version :: string
  sources :: "string list"
  names :: "string list"
  sourcesContent :: "string list option"
  mappings :: string
  sourceRoot :: "string option"
  sm_file :: "string option"

text \<open>\<^verbatim>\<open>Buffer.from(s, 'utf-8').toString('base64')\<close>: RFC 4648 on the bytes.\<close>

definition base64_alphabet :: string where
  "base64_alphabet = ''ABCDEFGHIJKLMNOPQRSTUVWXYZabcdefghijklmnopqrstuvwxyz0123456789+/''"

definition base64_digit :: "nat \<Rightarrow> char" where
  "base64_digit n = base64_alphabet ! (n mod 64)"

fun base64_bytes :: "nat list \<Rightarrow> string" where
  "base64_bytes [] = []"
| "base64_bytes [a] =
     [base64_digit (a div 4), base64_digit ((a mod 4) * 16), CHR ''='', CHR ''='']"
| "base64_bytes [a, b] =
     [base64_digit (a div 4), base64_digit ((a mod 4) * 16 + b div 16),
      base64_digit ((b mod 16) * 4), CHR ''='']"
| "base64_bytes (a # b # c # rest) =
     base64_digit (a div 4) # base64_digit ((a mod 4) * 16 + b div 16)
     # base64_digit ((b mod 16) * 4 + c div 64) # base64_digit (c mod 64)
     # base64_bytes rest"

definition base64 :: "string \<Rightarrow> string" where
  "base64 s = base64_bytes (map of_char s)"

text \<open>
  The decoding of RFC 4648, on a padded text: four digits give three bytes, and the
  last four may end in one or two \<^verbatim>\<open>=\<close>; \<open>None\<close> when the text is not of that
  form. The plugin does not decode: this is what a reader of the comment does, and it
  says which bytes a payload stands for.
\<close>

fun index_of :: "'a list \<Rightarrow> 'a \<Rightarrow> nat option" where
  "index_of [] c = None"
| "index_of (x # xs) c = (if x = c then Some 0 else map_option Suc (index_of xs c))"

definition base64_value :: "char \<Rightarrow> nat option" where
  "base64_value c = index_of base64_alphabet c"

fun base64_decode_bytes :: "string \<Rightarrow> nat list option" where
  "base64_decode_bytes [] = Some []"
| "base64_decode_bytes (c1 # c2 # c3 # c4 # rest) =
     (case (base64_value c1, base64_value c2) of
        (Some x, Some y) \<Rightarrow>
          if c3 = CHR ''='' then
            (if c4 = CHR ''='' \<and> rest = [] \<and> y mod 16 = 0 then Some [x * 4 + y div 16] else None)
          else
            (case base64_value c3 of
               None \<Rightarrow> None
             | Some z \<Rightarrow>
                 if c4 = CHR ''='' then
                   (if rest = [] \<and> z mod 4 = 0
                    then Some [x * 4 + y div 16, (y mod 16) * 16 + z div 4] else None)
                 else
                   (case base64_value c4 of
                      None \<Rightarrow> None
                    | Some w \<Rightarrow>
                        map_option
                          (\<lambda>bytes. (x * 4 + y div 16) # ((y mod 16) * 16 + z div 4)
                                    # ((z mod 4) * 64 + w) # bytes)
                          (base64_decode_bytes rest)))
      | _ \<Rightarrow> None)"
| "base64_decode_bytes _ = None"

definition base64_decode :: "string \<Rightarrow> string option" where
  "base64_decode s = map_option (map char_of) (base64_decode_bytes s)"

text \<open>
  \<^verbatim>\<open>sourceMap.sources.map((source) => relative(root, fileURLToPath(source)))\<close>: the
  first source that \<^verbatim>\<open>fileURLToPath\<close> rejects throws.
\<close>

fun rewrite_sources ::
  "(string \<Rightarrow> string) \<Rightarrow> string \<Rightarrow> string \<Rightarrow> string list \<Rightarrow> thrown + string list" where
  "rewrite_sources domainToASCII cwd root [] = Inr []"
| "rewrite_sources domainToASCII cwd root (source # rest) =
     (case fileURLToPath_string domainToASCII source of
        Inl e \<Rightarrow> Inl e
      | Inr p \<Rightarrow>
          (case rewrite_sources domainToASCII cwd root rest of
             Inl e \<Rightarrow> Inl e
           | Inr ps \<Rightarrow> Inr (relative cwd root p # ps)))"

text \<open>
  \<^verbatim>\<open>sourceMapToUrlComment(sourceMap, root)\<close> assigns to \<^verbatim>\<open>sourceMap.sources\<close>:
  the model returns the source map as the call leaves it, and the comment.
\<close>

definition sourceMapToUrlComment ::
  "(string \<Rightarrow> string) \<Rightarrow> (RawSourceMap \<Rightarrow> string) \<Rightarrow> string \<Rightarrow> RawSourceMap \<Rightarrow> string
   \<Rightarrow> thrown + (RawSourceMap \<times> string)" where
  "sourceMapToUrlComment domainToASCII JSON_stringify cwd sourceMap root =
     (case rewrite_sources domainToASCII cwd root (sources sourceMap) of
        Inl e \<Rightarrow> Inl e
      | Inr rewritten \<Rightarrow>
          let sourceMap' = sourceMap\<lparr>sources := rewritten\<rparr>;
              urlSourceMap = base64 (JSON_stringify sourceMap')
          in Inr (sourceMap',
                  ''/*# sourceMappingURL=data:application/json;charset=utf-8;base64,''
                  @ urlSourceMap @ '' */''))"

subsection \<open>The compiler\<close>

text \<open>
  Sass's \<^verbatim>\<open>Syntax\<close>, the options \<^verbatim>\<open>compileString\<close> passes to
  \<^verbatim>\<open>compileStringAsync\<close>, and the \<^verbatim>\<open>CompileResult\<close> it reads. The compiler is a
  parameter: for a source text and its options it gives the calls it makes to
  \<^verbatim>\<open>logger.warn\<close>, in order, and then resolves or rejects.
\<close>

datatype Syntax = scss | indented | css_syntax

type_synonym importer = "string \<Rightarrow> string list option \<Rightarrow> url option \<times> resolve_call list"

record StringOptions =
  sass_url :: url
  sass_style :: string
  sass_syntax :: Syntax
  sass_loadPaths :: "string list option"
  sass_sourceMap :: bool
  sass_sourceMapIncludeSources :: bool
  sass_quietDeps :: bool
  sass_importers :: "importer list"

record CompileResult =
  css :: string
  sourceMap :: "RawSourceMap option"
  loadedUrls :: "url list"

datatype compile_outcome = Fulfilled CompileResult | Rejected thrown

type_synonym warn_call = "string \<times> LoggerWarnOptions"

type_synonym compiler = "string \<Rightarrow> StringOptions \<Rightarrow> warn_call list \<times> compile_outcome"

record SassPluginOptions =
  sourcemap :: bool
  loadPaths :: "string list option"
  inlineComponentData :: "(string \<rightharpoonup> string) option"

text \<open>esbuild's \<^verbatim>\<open>OnLoadResult\<close> with the fields the plugin sets.\<close>

record OnLoadResult =
  loader :: string
  contents :: "string option"
  errors :: "PartialMessage list option"
  warnings :: "PartialMessage list option"
  watchFiles :: "string list option"

text \<open>
  What the plugin needs from its host: the bundler, the working directory, the
  compiler behind the worker pool, \<^verbatim>\<open>JSON.stringify\<close> on a source map,
  \<^verbatim>\<open>readFile(path, 'utf-8')\<close>, and the IDNA tables of the URL parser.
\<close>

record Host =
  build :: PluginBuild
  cwd :: string
  compileStringAsync :: compiler
  JSON_stringify :: "RawSourceMap \<Rightarrow> string"
  readFile :: "string \<Rightarrow> thrown + string"
  domainToASCII :: "string \<Rightarrow> string"

text \<open>The \<^verbatim>\<open>catch\<close> block of \<^verbatim>\<open>compileString\<close>.\<close>

definition catch_error :: "PartialMessage list \<Rightarrow> thrown \<Rightarrow> thrown + OnLoadResult" where
  "catch_error warnings_so_far error =
     (if isSassException error then
        (case error of
           JsSassException e \<Rightarrow>
             let file = (case span_url (span e) of
                           Some u \<Rightarrow> Some (fileURLToPath u)
                         | None \<Rightarrow> None)
             in Inr \<lparr>loader = ''css'',
                     contents = None,
                     errors = Some [\<lparr>msg_text = message e, msg_location = None, msg_notes = None\<rparr>],
                     warnings = Some warnings_so_far,
                     watchFiles = (if truthy file then Some [js_string file] else None)\<rparr>
         | _ \<Rightarrow> Inl error)
      else Inl error)"

text \<open>
  \<^verbatim>\<open>compileString(data, filePath, syntax, options, resolveUrl)\<close>;
  \<open>sassOptions\<close> is the object it passes to the compiler, which is the host's
  (the worker pool, started on first use, only carries the call). The second
  component of the result is the list of the calls made to the compiler (none or one).
  \<open>filePath\<close> is \<open>None\<close> when the inline handler found no third piece in its path:
  \<^verbatim>\<open>pathToFileURL(undefined)\<close> throws a \<^verbatim>\<open>TypeError\<close> inside the \<^verbatim>\<open>try\<close>,
  before the compiler is called, and the \<^verbatim>\<open>catch\<close> throws it again. An exception of
  \<^verbatim>\<open>sourceMapToUrlComment\<close> is thrown inside the \<^verbatim>\<open>try\<close> as well.
\<close>

definition sassOptions :: "Host \<Rightarrow> string \<Rightarrow> Syntax \<Rightarrow> SassPluginOptions \<Rightarrow> StringOptions" where
  "sassOptions h filePath syntax options =
     \<lparr>sass_url = pathToFileURL (cwd h) filePath,
      sass_style = ''expanded'',
      sass_syntax = syntax,
      sass_loadPaths = loadPaths options,
      sass_sourceMap = sourcemap options,
      sass_sourceMapIncludeSources = sourcemap options,
      sass_quietDeps = True,
      sass_importers = [findFileUrl (build h) (cwd h)]\<rparr>"

definition compileString ::
  "Host \<Rightarrow> string \<Rightarrow> string option \<Rightarrow> Syntax \<Rightarrow> SassPluginOptions
   \<Rightarrow> (thrown + OnLoadResult) \<times> (string \<times> StringOptions) list" where
  "compileString h data filePath syntax options =
     (case filePath of
        None \<Rightarrow> (catch_error [] (JsRuntimeError ''TypeError''), [])
      | Some filePath' \<Rightarrow>
          (case compileStringAsync h data (sassOptions h filePath' syntax options) of
             (logged, outcome) \<Rightarrow>
               let warnings_pushed = map (\<lambda>(text, opts). warn text opts) logged
               in ((case outcome of
                      Fulfilled r \<Rightarrow>
                        (case sourceMap r of
                           None \<Rightarrow>
                             Inr \<lparr>loader = ''css'',
                                  contents = Some (css r),
                                  errors = None,
                                  warnings = Some warnings_pushed,
                                  watchFiles = Some (map fileURLToPath (loadedUrls r))\<rparr>
                         | Some sm \<Rightarrow>
                             (case sourceMapToUrlComment (domainToASCII h) (JSON_stringify h)
                                     (cwd h) sm (dirname filePath') of
                                Inl e \<Rightarrow> catch_error warnings_pushed e
                              | Inr (sm', comment) \<Rightarrow>
                                  Inr \<lparr>loader = ''css'',
                                       contents = Some (css r @ [CHR 0x0A] @ comment),
                                       errors = None,
                                       warnings = Some warnings_pushed,
                                       watchFiles = Some (map fileURLToPath (loadedUrls r))\<rparr>))
                    | Rejected error \<Rightarrow> catch_error warnings_pushed error),
                   [(data, sassOptions h filePath' syntax options)])))"

subsection \<open>The load handlers\<close>

text \<open>
  Modelled from the spec: the load result cache (\<^verbatim>\<open>../load-result-cache\<close>) is not
  among the sources. Its contract is \<^verbatim>\<open>get(key) -> result|undefined\<close> and
  \<^verbatim>\<open>put(key, result) -> void\<close>: a store from keys to results.
\<close>

type_synonym LoadResultCache = "string \<rightharpoonup> OnLoadResult"

definition cache_get :: "LoadResultCache \<Rightarrow> string \<Rightarrow> OnLoadResult option" where
  "cache_get c key = c key"

definition cache_put :: "LoadResultCache \<Rightarrow> string \<Rightarrow> OnLoadResult \<Rightarrow> LoadResultCache" where
  "cache_put c key result = c(key \<mapsto> result)"

text \<open>
  The state a load handler reads and writes: the cache the plugin was created with
  (\<open>None\<close> when \<^verbatim>\<open>createSassPlugin\<close> got none), and the calls made to the compiler
  so far.
\<close>

record State =
  cache :: "LoadResultCache option"
  compilations :: "(string \<times> StringOptions) list"

text \<open>\<^verbatim>\<open>cache?.get(key)\<close> and \<^verbatim>\<open>cache?.put(key, result)\<close>.\<close>

definition optional_get :: "State \<Rightarrow> string \<Rightarrow> OnLoadResult option" where
  "optional_get st key = (case cache st of None \<Rightarrow> None | Some c \<Rightarrow> cache_get c key)"

definition optional_put :: "State \<Rightarrow> string \<Rightarrow> OnLoadResult \<Rightarrow> State" where
  "optional_put st key result =
     (case cache st of None \<Rightarrow> st | Some c \<Rightarrow> st\<lparr>cache := Some (cache_put c key result)\<rparr>)"

text \<open>
  The handler for \<^verbatim>\<open>{ filter: /^s[ac]ss;/, namespace: 'angular:styles/component' }\<close>,
  given \<^verbatim>\<open>args.path\<close>.
\<close>

definition onLoad_component ::
  "Host \<Rightarrow> SassPluginOptions \<Rightarrow> State \<Rightarrow> string \<Rightarrow> (thrown + OnLoadResult) \<times> State" where
  "onLoad_component h options st args_path =
     (case (case inlineComponentData options of None \<Rightarrow> None | Some m \<Rightarrow> m args_path) of
        None \<Rightarrow>
          (Inl (JsError ''AssertionError''
                  (''component style name should always be found ['' @ args_path @ '']'')),
           st)
      | Some data \<Rightarrow>
          (case optional_get st data of
             Some result \<Rightarrow> (Inr result, st)
           | None \<Rightarrow>
               let pieces = take 3 (js_split CHR '';'' args_path);
                   language = js_index pieces 0;
                   filePath = js_index pieces 2;
                   syntax = (if language = Some ''sass'' then indented else scss)
               in (case compileString h data filePath syntax options of
                     (outcome, calls) \<Rightarrow>
                       let st' = st\<lparr>compilations := compilations st @ calls\<rparr>
                       in (case outcome of
                             Inl e \<Rightarrow> (Inl e, st')
                           | Inr result \<Rightarrow>
                               if errors result = None
                               then (Inr result, optional_put st' data result)
                               else (Inr result, st')))))"

text \<open>The handler for \<^verbatim>\<open>{ filter: /\.s[ac]ss$/ }\<close>, given \<^verbatim>\<open>args.path\<close>.\<close>

definition onLoad_file ::
  "Host \<Rightarrow> SassPluginOptions \<Rightarrow> State \<Rightarrow> string \<Rightarrow> (thrown + OnLoadResult) \<times> State" where
  "onLoad_file h options st args_path =
     (case optional_get st args_path of
        Some result \<Rightarrow> (Inr result, st)
      | None \<Rightarrow>
          (case readFile h args_path of
             Inl e \<Rightarrow> (Inl e, st)
           | Inr data \<Rightarrow>
               let syntax = (if toLowerCase (extname args_path) = ''.sass'' then indented else scss)
               in (case compileString h data (Some args_path) syntax options of
                     (outcome, calls) \<Rightarrow>
                       let st' = st\<lparr>compilations := compilations st @ calls\<rparr>
                       in (case outcome of
                             Inl e \<Rightarrow> (Inl e, st')
                           | Inr result \<Rightarrow>
                               if errors result = None
                               then (Inr result, optional_put st' args_path result)
                               else (Inr result, st')))))"

subsection \<open>The importer's strategies, one by one\<close>





subsection \<open>A host to run the plugin on\<close>

text \<open>
  A project at \<^verbatim>\<open>/proj\<close>. From the working directory its bundler finds the
  file \<^verbatim>\<open>lib/theme.scss\<close> and the manifests of \<^verbatim>\<open>pkg\<close> and
  \<^verbatim>\<open>@scope/pkg\<close>; it finds the manifest of \<^verbatim>\<open>pnp\<close> only from the directory
  \<^verbatim>\<open>/proj/.yarn/cache\<close>; of \<^verbatim>\<open>both\<close> it finds the manifest and, where the
  package exports it, the deep import itself.
\<close>

definition example_resolve :: "string \<Rightarrow> BuildResolveOptions \<Rightarrow> ResolveResult" where
  "example_resolve url opts =
     \<lparr>path =
        (if resolveDir opts = Some ''/proj'' then
           (if url = ''lib/theme.scss'' then ''/proj/node_modules/lib/theme.scss''
            else if url = ''pkg/package.json'' then ''/proj/node_modules/pkg/package.json''
            else if url = ''@scope/pkg/package.json''
              then ''/proj/node_modules/@scope/pkg/package.json''
            else if url = ''both/package.json'' then ''/proj/node_modules/both/package.json''
            else if url = ''both/sub/path'' then ''/proj/node_modules/both/dist/sub/path.scss''
            else [])
         else if resolveDir opts = Some ''/proj/.yarn/cache'' \<and> url = ''pnp/package.json''
           then ''/proj/.yarn/cache/pnp/package.json''
         else [])\<rparr>"

definition example_build :: PluginBuild where
  "example_build = \<lparr>resolve = example_resolve, absWorkingDir = Some ''/proj''\<rparr>"

text \<open>
  A compiler that knows three source texts: one compiles with two warnings (and with
  a source map when asked for one), one is a syntax error reported after a warning,
  and anything else makes the worker fail with a plain \<^verbatim>\<open>Error\<close>.
\<close>

definition example_span :: "url \<Rightarrow> SourceSpan" where
  "example_span u =
     \<lparr>span_start = \<lparr>src_offset = 4, src_line = 0, src_column = 4\<rparr>,
      span_end = \<lparr>src_offset = 8, src_line = 0, src_column = 8\<rparr>,
      span_url = Some u,
      span_text = ''b: c'',
      span_context = Some ''a { b: c }''\<rparr>"

definition example_source_map :: RawSourceMap where
  "example_source_map =
     \<lparr>version = ''3'',
      sources = [''file:///proj/src/a.scss'', ''file:///proj/src/my%20dir/_real.scss'',
                 ''file:///proj/node_modules/lib/_theme.scss''],
      names = [],
      sourcesContent = None,
      mappings = ''AAAA'',
      sourceRoot = None,
      sm_file = None\<rparr>"

definition example_compiler :: compiler where
  "example_compiler data so =
     (if data = ''a { b: c }'' then
        ([(''b is going away'', \<lparr>deprecation = True, warn_span = Some (example_span (sass_url so))\<rparr>),
          (''c is unusual'', \<lparr>deprecation = False, warn_span = None\<rparr>)],
         Fulfilled
           \<lparr>css = ''a { b: c; }'',
            sourceMap =
              (if sass_sourceMap so
               then Some example_source_map
               else None),
            loadedUrls = [sass_url so]\<rparr>)
      else if data = ''a {'' then
        ([(''c is unusual'', \<lparr>deprecation = False, warn_span = None\<rparr>)],
         Rejected (JsSassException
           \<lparr>message = ''expected }'',
            sassMessage = ''expected }'',
            sassStack = [],
            span = example_span (sass_url so)\<rparr>))
      else ([], Rejected (JsError ''Error'' ''the worker has exited'')))"

text \<open>A stand-in for \<^verbatim>\<open>JSON.stringify\<close> that writes the sources and the mappings.\<close>

definition example_stringify :: "RawSourceMap \<Rightarrow> string" where
  "example_stringify sm =
     ''{sources:['' @ js_join '','' (sources sm) @ ''],mappings:'' @ mappings sm @ ''}''"

definition example_readFile :: "string \<Rightarrow> thrown + string" where
  "example_readFile p =
     (if p = ''/proj/src/a.scss'' then Inr ''a { b: c }''
      else if p = ''/proj/src/bad.scss'' then Inr ''a {''
      else Inl (JsError ''Error'' ''ENOENT''))"

text \<open>
  A stand-in for the IDNA tables that knows no character outside ASCII: every domain
  it is asked about is invalid.
\<close>

definition example_domainToASCII :: "string \<Rightarrow> string" where
  "example_domainToASCII domain = []"

definition example_host :: Host where
  "example_host =
     \<lparr>build = example_build,
      cwd = ''/proj'',
      compileStringAsync = example_compiler,
      JSON_stringify = example_stringify,
      readFile = example_readFile,
      domainToASCII = example_domainToASCII\<rparr>"

definition example_options :: "bool \<Rightarrow> SassPluginOptions" where
  "example_options sm =
     \<lparr>sourcemap = sm,
      loadPaths = None,
      inlineComponentData =
        Some [''scss;comp-1;/proj/src/comp.ts'' \<mapsto> ''a { b: c }'',
              ''scss;comp-2;/proj/src/comp.ts'' \<mapsto> ''a {'']\<rparr>"

definition empty_state :: State where
  "empty_state = \<lparr>cache = Some Map.empty, compilations = []\<rparr>"

section \<open>Properties\<close>

subsection \<open>Warnings\<close>

lemma compileString_warnings:
  "fst (compileString h data (Some fp) syntax options) = Inr r \<Longrightarrow>
   warnings r = Some (map (\<lambda>(text, opts). warn text opts)
                   (fst (compileStringAsync h data (sassOptions h fp syntax options))))"
  by (auto simp: compileString_def catch_error_def Let_def
      split: prod.splits compile_outcome.splits option.splits sum.splits thrown.splits if_splits)

text \<open>
  C6. Every warning the compiler emits during a compilation appears, in order, among
  the warnings of the load result. A deprecation has the text \<^verbatim>\<open>Deprecation\<close> and
  one note, whose text is the original message; any other warning keeps its message as
  its text and has no notes. With a source span the location's line is the compiler's
  line plus one and its column is the compiler's column; without one there is no
  location.
\<close>

theorem warning_translation:
  assumes "fst (compileString h data (Some fp) syntax options) = Inr r"
    and "fst (compileStringAsync h data (sassOptions h fp syntax options)) = logged"
    and "i < length logged"
    and "logged ! i = (text, wopts)"
  shows "\<exists>ws. warnings r = Some ws \<and> length ws = length logged \<and>
           msg_text (ws ! i) = (if deprecation wopts then ''Deprecation'' else text) \<and>
           msg_notes (ws ! i) = (if deprecation wopts then Some [\<lparr>note_text = text\<rparr>] else None) \<and>
           (case warn_span wopts of
              None \<Rightarrow> msg_location (ws ! i) = None
            | Some sp \<Rightarrow>
                \<exists>loc. msg_location (ws ! i) = Some loc \<and>
                      line loc = src_line (span_start sp) + 1 \<and>
                      column loc = src_column (span_start sp))"
proof -
  let ?ws = "map (\<lambda>(text, opts). warn text opts) logged"
  have w: "warnings r = Some ?ws"
    using compileString_warnings [OF assms(1)] assms(2) by simp
  have m: "?ws ! i = warn text wopts"
    using assms(3,4) by simp
  show ?thesis
    using w m by (simp add: warn_def split: option.splits)
qed

theorem warning_translation_witness:
  "\<exists>r ws. fst (compileString example_host ''a { b: c }'' (Some ''/proj/src/a.scss'') scss
               (example_options False)) = Inr r \<and>
     warnings r = Some ws \<and> length ws = 2 \<and>
     msg_text (ws ! 0) = ''Deprecation'' \<and>
     msg_notes (ws ! 0) = Some [\<lparr>note_text = ''b is going away''\<rparr>] \<and>
     (\<exists>loc. msg_location (ws ! 0) = Some loc \<and> line loc = 0 + 1 \<and> column loc = 4)"
proof -
  let ?logged = "[(''b is going away'',
                   \<lparr>deprecation = True,
                    warn_span = Some (example_span (FileURL ''proj/src/a.scss''))\<rparr>),
                  (''c is unusual'', \<lparr>deprecation = False, warn_span = None\<rparr>)]"
  obtain r where r: "fst (compileString example_host ''a { b: c }'' (Some ''/proj/src/a.scss'') scss
               (example_options False)) = Inr r"
    by (simp add: compileString_def example_host_def example_compiler_def sassOptions_def
        example_options_def)
  have l: "fst (compileStringAsync example_host ''a { b: c }''
             (sassOptions example_host ''/proj/src/a.scss'' scss (example_options False))) = ?logged"
    by (simp add: example_host_def example_compiler_def sassOptions_def pathToFileURL_def
        path_resolve_def startsWith_def endsWith_def)
  have i: "0 < length ?logged" by simp
  have e: "?logged ! 0 = (''b is going away'',
                   \<lparr>deprecation = True,
                    warn_span = Some (example_span (FileURL ''proj/src/a.scss''))\<rparr>)" by simp
  show ?thesis
    using warning_translation [OF r l i e] r by (auto simp: example_span_def)
qed

subsection \<open>Compiler exceptions\<close>

lemma isSassException_iff:
  "isSassException error \<longleftrightarrow> (\<exists>e. error = JsSassException e)"
  by (cases error) (simp_all add: isSassException_def js_truthy_def js_typeof_def js_in_def)

lemma catch_error_exception:
  "catch_error ws (JsSassException e) =
     Inr \<lparr>loader = ''css'', contents = None,
          errors = Some [\<lparr>msg_text = message e, msg_location = None, msg_notes = None\<rparr>],
          warnings = Some ws,
          watchFiles = (case span_url (span e) of
                          None \<Rightarrow> None
                        | Some u \<Rightarrow> Some [fileURLToPath u])\<rparr>"
  by (simp add: catch_error_def isSassException_iff truthy_def js_string_def fileURLToPath_def
      split: option.splits url.splits)

lemma catch_error_other:
  "\<not> isSassException error \<Longrightarrow> catch_error ws error = Inl error"
  by (simp add: catch_error_def)

text \<open>
  C2. When the compiler rejects, \<^verbatim>\<open>compileString\<close> looks at the shape of the
  value: an object other than \<^verbatim>\<open>null\<close> with a \<^verbatim>\<open>sassMessage\<close> property. For
  such an exception it returns a load result with exactly one error, whose text is
  the exception's message, with no contents, with the warnings pushed before the
  failure, and with the file of the exception's span as the only watched file when
  the span has a URL (and no watched files when it has none). Any other value is
  thrown again.
\<close>

theorem compiler_rejection:
  assumes "compileStringAsync h data (sassOptions h fp syntax options) = (logged, Rejected error)"
  shows "(isSassException error \<longleftrightarrow>
            js_typeof error = ''object'' \<and> error \<noteq> JsNull \<and> js_in ''sassMessage'' error) \<and>
         (isSassException error \<longrightarrow>
            (\<exists>e. error = JsSassException e \<and>
               fst (compileString h data (Some fp) syntax options) =
                 Inr \<lparr>loader = ''css'',
                      contents = None,
                      errors = Some [\<lparr>msg_text = message e, msg_location = None, msg_notes = None\<rparr>],
                      warnings = Some (map (\<lambda>(text, opts). warn text opts) logged),
                      watchFiles = (case span_url (span e) of
                                      None \<Rightarrow> None
                                    | Some u \<Rightarrow> Some [fileURLToPath u])\<rparr>)) \<and>
         (\<not> isSassException error \<longrightarrow>
            fst (compileString h data (Some fp) syntax options) = Inl error)"
proof -
  have shape: "isSassException error \<longleftrightarrow>
      js_typeof error = ''object'' \<and> error \<noteq> JsNull \<and> js_in ''sassMessage'' error"
    by (cases error) (simp_all add: isSassException_def js_truthy_def js_typeof_def js_in_def)
  have run: "fst (compileString h data (Some fp) syntax options) =
      catch_error (map (\<lambda>(text, opts). warn text opts) logged) error"
    using assms by (simp add: compileString_def)
  show ?thesis
    using shape run catch_error_exception catch_error_other
    by (auto simp: isSassException_iff)
qed

theorem compiler_rejection_witness:
  "isSassException (JsSassException \<lparr>message = ''expected }'', sassMessage = ''expected }'',
       sassStack = [], span = example_span (FileURL ''proj/src/a.scss'')\<rparr>) \<and>
   fst (compileString example_host ''a {'' (Some ''/proj/src/a.scss'') scss (example_options False)) =
     Inr \<lparr>loader = ''css'', contents = None,
          errors = Some [\<lparr>msg_text = ''expected }'', msg_location = None, msg_notes = None\<rparr>],
          warnings = Some [\<lparr>msg_text = ''c is unusual'', msg_location = None, msg_notes = None\<rparr>],
          watchFiles = Some [''/proj/src/a.scss'']\<rparr> \<and>
   \<not> isSassException (JsError ''Error'' ''the worker has exited'') \<and>
   fst (compileString example_host ''@use'' (Some ''/proj/src/a.scss'') scss (example_options False)) =
     Inl (JsError ''Error'' ''the worker has exited'')"
proof -
  have u: "pathToFileURL ''/proj'' ''/proj/src/a.scss'' = FileURL ''proj/src/a.scss''"
    by (simp add: pathToFileURL_def path_resolve_def startsWith_def endsWith_def)
  have a: "compileStringAsync example_host ''a {''
             (sassOptions example_host ''/proj/src/a.scss'' scss (example_options False)) =
           ([(''c is unusual'', \<lparr>deprecation = False, warn_span = None\<rparr>)],
            Rejected (JsSassException \<lparr>message = ''expected }'', sassMessage = ''expected }'',
              sassStack = [], span = example_span (FileURL ''proj/src/a.scss'')\<rparr>))"
    by (simp add: example_host_def example_compiler_def sassOptions_def u)
  have b: "compileStringAsync example_host ''@use''
             (sassOptions example_host ''/proj/src/a.scss'' scss (example_options False)) =
           ([], Rejected (JsError ''Error'' ''the worker has exited''))"
    by (simp add: example_host_def example_compiler_def)
  show ?thesis
    using compiler_rejection [OF a] compiler_rejection [OF b]
    by (simp add: warn_def example_span_def fileURLToPath_def js_typeof_def js_in_def)
qed

subsection \<open>The source map comment\<close>

text \<open>The base64 text of a string decodes to that string, so it stands for no other.\<close>

lemma index_of_nth: "distinct xs \<Longrightarrow> n < length xs \<Longrightarrow> index_of xs (xs ! n) = Some n"
proof (induction xs arbitrary: n)
  case Nil
  then show ?case by simp
next
  case (Cons x xs)
  then show ?case by (cases n) auto
qed

lemma base64_alphabet_distinct: "distinct base64_alphabet"
  by (simp add: base64_alphabet_def)

lemma base64_alphabet_length: "length base64_alphabet = 64"
  by (simp add: base64_alphabet_def)

lemma base64_alphabet_pad: "CHR ''='' \<notin> set base64_alphabet"
  by (simp add: base64_alphabet_def)

lemma base64_value_digit:
  assumes "n < 64"
  shows "base64_value (base64_digit n) = Some n" and "base64_digit n \<noteq> CHR ''=''"
proof -
  show "base64_value (base64_digit n) = Some n"
    using assms
    by (simp add: base64_value_def base64_digit_def index_of_nth base64_alphabet_distinct
        base64_alphabet_length)
  have "base64_digit n \<in> set base64_alphabet"
    using assms by (simp add: base64_digit_def base64_alphabet_length)
  then show "base64_digit n \<noteq> CHR ''=''"
    using base64_alphabet_pad by auto
qed

lemma base64_decode_bytes_encode:
  "list_all (\<lambda>b. b < 256) bytes \<Longrightarrow> base64_decode_bytes (base64_bytes bytes) = Some bytes"
proof (induction bytes rule: base64_bytes.induct)
  case 1
  then show ?case by simp
next
  case (2 a)
  then have a: "a < 256" by simp
  have d: "a div 4 < 64" "(a mod 4) * 16 < 64"
    using a by simp_all
  have v: "((a mod 4) * 16) mod 16 = 0" "a div 4 * 4 + (a mod 4 * 16) div 16 = a"
    by simp_all
  show ?case
    using v by (simp add: base64_value_digit [OF d(1)] base64_value_digit [OF d(2)])
next
  case (3 a b)
  then have a: "a < 256" and b: "b < 256" by simp_all
  have d: "a div 4 < 64" "(a mod 4) * 16 + b div 16 < 64" "(b mod 16) * 4 < 64"
    using a b by simp_all
  have v: "a div 4 * 4 + (a mod 4 * 16 + b div 16) div 16 = a"
    "(a mod 4 * 16 + b div 16) mod 16 * 16 + (b mod 16 * 4) div 4 = b"
    "(b mod 16 * 4) mod 4 = 0"
    using a b by simp_all
  show ?case
    using v
    by (simp add: base64_value_digit [OF d(1)] base64_value_digit [OF d(2)]
        base64_value_digit [OF d(3)])
next
  case (4 a b c rest)
  then have a: "a < 256" and b: "b < 256" and c: "c < 256"
    and rest: "base64_decode_bytes (base64_bytes rest) = Some rest"
    by simp_all
  have d: "a div 4 < 64" "(a mod 4) * 16 + b div 16 < 64" "(b mod 16) * 4 + c div 64 < 64"
    "c mod 64 < 64"
    using a b c by simp_all
  have v: "a div 4 * 4 + (a mod 4 * 16 + b div 16) div 16 = a"
    "(a mod 4 * 16 + b div 16) mod 16 * 16 + (b mod 16 * 4 + c div 64) div 4 = b"
    "(b mod 16 * 4 + c div 64) mod 4 * 64 + c mod 64 = c"
    using a b c by simp_all
  show ?case
    using v rest
    by (simp add: base64_value_digit [OF d(1)] base64_value_digit [OF d(2)]
        base64_value_digit [OF d(3)] base64_value_digit [OF d(4)])
qed

lemma base64_decode_base64: "base64_decode (base64 s) = Some s"
proof -
  have "list_all (\<lambda>b. b < 256) (map of_char s :: nat list)"
    by (simp add: list_all_iff)
  then show ?thesis
    by (simp add: base64_decode_def base64_def base64_decode_bytes_encode comp_def)
qed

lemma base64_inject: "base64 s = base64 t \<longleftrightarrow> s = t"
  by (metis base64_decode_base64 option.inject)

text \<open>
  \<^verbatim>\<open>fileURLToPath\<close> on some strings: escapes are decoded, also those of a character
  outside ASCII; \<^verbatim>\<open>localhost\<close>, a query and a fragment are dropped; dot segments
  are resolved; another host, another scheme, no scheme and an escaped slash are
  \<^verbatim>\<open>TypeError\<close>s, and a malformed escape is a \<^verbatim>\<open>URIError\<close>.
\<close>

lemma fileURLToPath_string_examples:
  "fileURLToPath_string example_domainToASCII ''file:///proj/src/my%20dir/real.scss'' =
     Inr ''/proj/src/my dir/real.scss''"
  "fileURLToPath_string example_domainToASCII ''file:///proj/caf%C3%A9.scss'' =
     Inr (''/proj/caf'' @ [CHR 0xC3, CHR 0xA9] @ ''.scss'')"
  "fileURLToPath_string example_domainToASCII ''file://localhost/proj/a.scss?v=1#top'' =
     Inr ''/proj/a.scss''"
  "fileURLToPath_string example_domainToASCII ''file:///proj/src/../lib/./a.scss'' =
     Inr ''/proj/lib/a.scss''"
  "fileURLToPath_string example_domainToASCII ''file:/proj/a.scss'' = Inr ''/proj/a.scss''"
  "fileURLToPath_string example_domainToASCII ''file://example.com/proj/a.scss'' =
     Inl (JsRuntimeError ''TypeError'')"
  "fileURLToPath_string example_domainToASCII ''https://example.com/a.scss'' =
     Inl (JsRuntimeError ''TypeError'')"
  "fileURLToPath_string example_domainToASCII ''../lib/a.scss'' =
     Inl (JsRuntimeError ''TypeError'')"
  "fileURLToPath_string example_domainToASCII ''file:///proj/a%2Fb.scss'' =
     Inl (JsRuntimeError ''TypeError'')"
  "fileURLToPath_string example_domainToASCII ''file:///proj/100%.scss'' =
     Inl (JsRuntimeError ''URIError'')"
  "fileURLToPath_string example_domainToASCII ''file:///proj/caf%E9.scss'' =
     Inl (JsRuntimeError ''URIError'')"
  by code_simp+

text \<open>What \<^verbatim>\<open>fileURLToPath\<close> throws, and on which strings.\<close>

lemma decodeURIComponent_Inl:
  "decodeURIComponent s = Inl e \<Longrightarrow> e = JsRuntimeError ''URIError''"
  by (auto simp: decodeURIComponent_def split: option.splits)

lemma fileURLToPath_string_Inl:
  "fileURLToPath_string idna s = Inl e \<Longrightarrow>
   e = JsRuntimeError ''TypeError'' \<or> e = JsRuntimeError ''URIError''"
  by (auto simp: fileURLToPath_string_def
      split: option.splits prod.splits if_splits dest: decodeURIComponent_Inl)

lemma fileURLToPath_string_no_scheme:
  "url_scheme s = None \<Longrightarrow> fileURLToPath_string idna s = Inl (JsRuntimeError ''TypeError'')"
  by (simp add: fileURLToPath_string_def)

lemma rewrite_sources_Inl:
  "rewrite_sources idna wd root xs = Inl e \<Longrightarrow>
   \<exists>source \<in> set xs. fileURLToPath_string idna source = Inl e"
proof (induction xs)
  case Nil
  then show ?case by simp
next
  case (Cons x xs)
  then show ?case
    by (auto split: sum.splits)
qed

lemma rewrite_sources_Inr:
  "rewrite_sources idna wd root xs = Inr ps \<Longrightarrow>
   list_all2 (\<lambda>source rewritten.
       \<exists>p. fileURLToPath_string idna source = Inr p \<and> rewritten = relative wd root p) xs ps"
proof (induction xs arbitrary: ps)
  case Nil
  then show ?case by simp
next
  case (Cons x xs)
  then show ?case
    by (auto split: sum.splits)
qed

lemma rewrite_sources_no_scheme:
  "source \<in> set xs \<Longrightarrow> url_scheme source = None \<Longrightarrow> \<exists>e. rewrite_sources idna wd root xs = Inl e"
proof (induction xs)
  case Nil
  then show ?case by simp
next
  case (Cons x xs)
  then show ?case
    by (auto simp: fileURLToPath_string_no_scheme split: sum.splits)
qed

lemma not_sass_runtime_error: "\<not> isSassException (JsRuntimeError name)"
  by (simp add: isSassException_def js_in_def)

lemma rewrite_sources_rethrown:
  "rewrite_sources idna wd root xs = Inl e \<Longrightarrow> catch_error ws e = Inl e"
  using rewrite_sources_Inl fileURLToPath_string_Inl not_sass_runtime_error
  by (fastforce simp: catch_error_def)

lemma example_url: "pathToFileURL ''/proj'' ''/proj/src/a.scss'' = FileURL ''proj/src/a.scss''"
  by (simp add: pathToFileURL_def path_resolve_def startsWith_def endsWith_def)

lemma example_rewrite:
  "rewrite_sources example_domainToASCII ''/proj'' ''/proj/src'' (sources example_source_map) =
     Inr [''a.scss'', ''my dir/_real.scss'', ''../node_modules/lib/_theme.scss'']"
  by code_simp

lemma example_serialized:
  "example_stringify
     (example_source_map\<lparr>sources :=
        [''a.scss'', ''my dir/_real.scss'', ''../node_modules/lib/_theme.scss'']\<rparr>) =
   ''{sources:[a.scss,my dir/_real.scss,../node_modules/lib/_theme.scss],mappings:AAAA}''"
  by code_simp

lemma example_payload:
  "base64 ''{sources:[a.scss,my dir/_real.scss,../node_modules/lib/_theme.scss],mappings:AAAA}'' =
   ''e3NvdXJjZXM6W2Euc2NzcyxteSBkaXIvX3JlYWwuc2NzcywuLi9ub2RlX21vZHVsZXMvbGliL190aGVtZS5zY3NzXSxtYXBwaW5nczpBQUFBfQ==''"
  by code_simp

lemma example_dirname: "dirname ''/proj/src/a.scss'' = ''/proj/src''"
  by code_simp

text \<open>
  The sources are converted in order, and the first rejection is what is thrown: a
  file URL with a malformed escape before a relative path gives a \<^verbatim>\<open>URIError\<close>.
\<close>

lemma malformed_escape_rejected_first:
  "sourceMapToUrlComment example_domainToASCII example_stringify ''/proj''
     (example_source_map\<lparr>sources := [''file:///proj/src/a%zz.scss'', ''a.scss'']\<rparr>) ''/proj/src'' =
     Inl (JsRuntimeError ''URIError'')"
proof -
  have "rewrite_sources example_domainToASCII ''/proj'' ''/proj/src''
      [''file:///proj/src/a%zz.scss'', ''a.scss''] = Inl (JsRuntimeError ''URIError'')"
    by code_simp
  then show ?thesis
    by (simp add: sourceMapToUrlComment_def)
qed

text \<open>
  C7. When the compiler resolves, the options it was given ask for a source map
  exactly when the plugin's \<^verbatim>\<open>sourcemap\<close> flag is set. If it produced no source
  map the contents are the CSS text. If it produced one, the contents are the CSS
  text, a newline, and the comment
  \<^verbatim>\<open>/*# sourceMappingURL=data:application/json;charset=utf-8;base64,<payload> */\<close>.
  The payload is the base64 text of the serialized source map with its sources
  rewritten, so it decodes to that serialization, and every rewritten source is the
  path of the file URL it was, relative to the directory of the compiled file. Should
  \<^verbatim>\<open>fileURLToPath\<close> reject a source, \<^verbatim>\<open>compileString\<close> throws what it threw.
  When the flag is false, and the compiler produces no source map when not asked for
  one, the contents are the CSS text alone.
\<close>

theorem source_map_comment:
  assumes "compileStringAsync h data (sassOptions h fp syntax options) = (logged, Fulfilled res)"
  shows "sass_sourceMap (sassOptions h fp syntax options) = sourcemap options \<and>
         (case sourceMap res of
            None \<Rightarrow>
              \<exists>r. fst (compileString h data (Some fp) syntax options) = Inr r \<and>
                  contents r = Some (css res)
          | Some sm \<Rightarrow>
              (case rewrite_sources (domainToASCII h) (cwd h) (dirname fp) (sources sm) of
                 Inr rewritten \<Rightarrow>
                   \<exists>r payload.
                     fst (compileString h data (Some fp) syntax options) = Inr r \<and>
                     contents r =
                       Some (css res @ [CHR 0x0A]
                             @ ''/*# sourceMappingURL=data:application/json;charset=utf-8;base64,''
                             @ payload @ '' */'') \<and>
                     payload = base64 (JSON_stringify h (sm\<lparr>sources := rewritten\<rparr>)) \<and>
                     base64_decode payload = Some (JSON_stringify h (sm\<lparr>sources := rewritten\<rparr>)) \<and>
                     list_all2 (\<lambda>source path.
                         \<exists>p. fileURLToPath_string (domainToASCII h) source = Inr p \<and>
                             path = relative (cwd h) (dirname fp) p)
                       (sources sm) rewritten
               | Inl e \<Rightarrow>
                   fst (compileString h data (Some fp) syntax options) = Inl e \<and>
                   (\<exists>source \<in> set (sources sm).
                      fileURLToPath_string (domainToASCII h) source = Inl e))) \<and>
         (\<not> sourcemap options \<and>
          (\<not> sass_sourceMap (sassOptions h fp syntax options) \<longrightarrow> sourceMap res = None) \<longrightarrow>
            (\<exists>r. fst (compileString h data (Some fp) syntax options) = Inr r \<and>
                 contents r = Some (css res)))"
proof -
  have flag: "sass_sourceMap (sassOptions h fp syntax options) = sourcemap options"
    by (simp add: sassOptions_def)
  have none: "sourceMap res = None \<Longrightarrow>
      \<exists>r. fst (compileString h data (Some fp) syntax options) = Inr r \<and> contents r = Some (css res)"
    using assms by (simp add: compileString_def)
  have thrown: "fst (compileString h data (Some fp) syntax options) = Inl e \<and>
      (\<exists>source \<in> set (sources sm). fileURLToPath_string (domainToASCII h) source = Inl e)"
    if "sourceMap res = Some sm"
      and "rewrite_sources (domainToASCII h) (cwd h) (dirname fp) (sources sm) = Inl e"
    for sm e
    using assms that rewrite_sources_rethrown [OF that(2)] rewrite_sources_Inl [OF that(2)]
    by (simp add: compileString_def sourceMapToUrlComment_def)
  have returned: "\<exists>r payload.
        fst (compileString h data (Some fp) syntax options) = Inr r \<and>
        contents r =
          Some (css res @ [CHR 0x0A]
                @ ''/*# sourceMappingURL=data:application/json;charset=utf-8;base64,''
                @ payload @ '' */'') \<and>
        payload = base64 (JSON_stringify h (sm\<lparr>sources := rewritten\<rparr>)) \<and>
        base64_decode payload = Some (JSON_stringify h (sm\<lparr>sources := rewritten\<rparr>)) \<and>
        list_all2 (\<lambda>source path.
            \<exists>p. fileURLToPath_string (domainToASCII h) source = Inr p \<and>
                path = relative (cwd h) (dirname fp) p)
          (sources sm) rewritten"
    if "sourceMap res = Some sm"
      and "rewrite_sources (domainToASCII h) (cwd h) (dirname fp) (sources sm) = Inr rewritten"
    for sm rewritten
    using assms that rewrite_sources_Inr [OF that(2)]
    by (simp add: compileString_def sourceMapToUrlComment_def Let_def base64_decode_base64)
  show ?thesis
    using flag none thrown returned by (auto split: option.splits sum.splits)
qed

theorem source_map_comment_witness:
  "(\<exists>r. fst (compileString example_host ''a { b: c }'' (Some ''/proj/src/a.scss'') scss
             (example_options True)) = Inr r \<and>
        contents r =
          Some (''a { b: c; }'' @ [CHR 0x0A]
                @ ''/*# sourceMappingURL=data:application/json;charset=utf-8;base64,''
                @ ''e3NvdXJjZXM6W2Euc2NzcyxteSBkaXIvX3JlYWwuc2NzcywuLi9ub2RlX21vZHVsZXMvbGliL190aGVtZS5zY3NzXSxtYXBwaW5nczpBQUFBfQ==''
                @ '' */'')) \<and>
   base64_decode
     ''e3NvdXJjZXM6W2Euc2NzcyxteSBkaXIvX3JlYWwuc2NzcywuLi9ub2RlX21vZHVsZXMvbGliL190aGVtZS5zY3NzXSxtYXBwaW5nczpBQUFBfQ=='' =
     Some ''{sources:[a.scss,my dir/_real.scss,../node_modules/lib/_theme.scss],mappings:AAAA}'' \<and>
   (\<exists>r. fst (compileString example_host ''a { b: c }'' (Some ''/proj/src/a.scss'') scss
             (example_options False)) = Inr r \<and>
        contents r = Some ''a { b: c; }'')"
proof -
  let ?logged = "[(''b is going away'',
                   \<lparr>deprecation = True,
                    warn_span = Some (example_span (FileURL ''proj/src/a.scss''))\<rparr>),
                  (''c is unusual'', \<lparr>deprecation = False, warn_span = None\<rparr>)]"
  let ?payload = "''e3NvdXJjZXM6W2Euc2NzcyxteSBkaXIvX3JlYWwuc2NzcywuLi9ub2RlX21vZHVsZXMvbGliL190aGVtZS5zY3NzXSxtYXBwaW5nczpBQUFBfQ==''"
  have t: "compileStringAsync example_host ''a { b: c }''
             (sassOptions example_host ''/proj/src/a.scss'' scss (example_options True)) =
           (?logged, Fulfilled \<lparr>css = ''a { b: c; }'', sourceMap = Some example_source_map,
                                loadedUrls = [FileURL ''proj/src/a.scss'']\<rparr>)"
    by (simp add: example_host_def example_compiler_def sassOptions_def example_options_def
        example_url)
  have f: "compileStringAsync example_host ''a { b: c }''
             (sassOptions example_host ''/proj/src/a.scss'' scss (example_options False)) =
           (?logged, Fulfilled \<lparr>css = ''a { b: c; }'', sourceMap = None,
                                loadedUrls = [FileURL ''proj/src/a.scss'']\<rparr>)"
    by (simp add: example_host_def example_compiler_def sassOptions_def example_options_def
        example_url)
  have h: "cwd example_host = ''/proj''" "JSON_stringify example_host = example_stringify"
    "domainToASCII example_host = example_domainToASCII"
    by (simp_all add: example_host_def)
  have opts: "\<not> sourcemap (example_options False)"
    by (simp add: example_options_def)
  from source_map_comment [OF t]
  have with_map: "\<exists>r. fst (compileString example_host ''a { b: c }'' (Some ''/proj/src/a.scss'') scss
             (example_options True)) = Inr r \<and>
        contents r =
          Some (''a { b: c; }'' @ [CHR 0x0A]
                @ ''/*# sourceMappingURL=data:application/json;charset=utf-8;base64,''
                @ ?payload @ '' */'')"
    and decoded: "base64_decode ?payload =
      Some ''{sources:[a.scss,my dir/_real.scss,../node_modules/lib/_theme.scss],mappings:AAAA}''"
    by (auto simp add: h example_dirname example_rewrite example_payload example_serialized)
  from source_map_comment [OF f] opts
  have without_map: "\<exists>r. fst (compileString example_host ''a { b: c }'' (Some ''/proj/src/a.scss'') scss
             (example_options False)) = Inr r \<and>
        contents r = Some ''a { b: c; }''"
    by simp
  from with_map decoded without_map show ?thesis by blast
qed

text \<open>
  C10. \<^verbatim>\<open>sourceMapToUrlComment\<close> changes the source map it is given: when it
  returns, every source is the path of the file URL it was, relative to the root, and
  every other field is what it was before. The payload of the comment is the base64
  text of this source map, serialized, and decodes to it. It throws only what
  \<^verbatim>\<open>fileURLToPath\<close> throws on one of the sources.
\<close>

theorem source_map_frame:
  "case sourceMapToUrlComment idna stringify wd sm root of
     Inr (sm', comment) \<Rightarrow>
       list_all2 (\<lambda>source path.
           \<exists>p. fileURLToPath_string idna source = Inr p \<and> path = relative wd root p)
         (sources sm) (sources sm') \<and>
       sm' = sm\<lparr>sources := sources sm'\<rparr> \<and>
       version sm' = version sm \<and> names sm' = names sm \<and>
       sourcesContent sm' = sourcesContent sm \<and> mappings sm' = mappings sm \<and>
       sourceRoot sm' = sourceRoot sm \<and> sm_file sm' = sm_file sm \<and>
       (\<exists>payload.
          comment = ''/*# sourceMappingURL=data:application/json;charset=utf-8;base64,''
                    @ payload @ '' */'' \<and>
          payload = base64 (stringify sm') \<and>
          base64_decode payload = Some (stringify sm'))
   | Inl e \<Rightarrow> \<exists>source \<in> set (sources sm). fileURLToPath_string idna source = Inl e"
proof (cases "rewrite_sources idna wd root (sources sm)")
  case (Inl e)
  then show ?thesis
    using rewrite_sources_Inl [OF Inl] by (simp add: sourceMapToUrlComment_def)
next
  case (Inr ps)
  then show ?thesis
    using rewrite_sources_Inr [OF Inr]
    by (simp add: sourceMapToUrlComment_def Let_def base64_decode_base64)
qed

theorem source_map_frame_witness:
  "sourceMapToUrlComment example_domainToASCII example_stringify ''/proj'' example_source_map
     ''/proj/src'' =
     Inr (example_source_map\<lparr>sources :=
            [''a.scss'', ''my dir/_real.scss'', ''../node_modules/lib/_theme.scss'']\<rparr>,
          ''/*# sourceMappingURL=data:application/json;charset=utf-8;base64,''
          @ ''e3NvdXJjZXM6W2Euc2NzcyxteSBkaXIvX3JlYWwuc2NzcywuLi9ub2RlX21vZHVsZXMvbGliL190aGVtZS5zY3NzXSxtYXBwaW5nczpBQUFBfQ==''
          @ '' */'') \<and>
   list_all2 (\<lambda>source path.
       \<exists>p. fileURLToPath_string example_domainToASCII source = Inr p \<and>
           path = relative ''/proj'' ''/proj/src'' p)
     (sources example_source_map)
     [''a.scss'', ''my dir/_real.scss'', ''../node_modules/lib/_theme.scss''] \<and>
   base64_decode
     ''e3NvdXJjZXM6W2Euc2NzcyxteSBkaXIvX3JlYWwuc2NzcywuLi9ub2RlX21vZHVsZXMvbGliL190aGVtZS5zY3NzXSxtYXBwaW5nczpBQUFBfQ=='' =
     Some ''{sources:[a.scss,my dir/_real.scss,../node_modules/lib/_theme.scss],mappings:AAAA}''"
proof -
  have r: "sourceMapToUrlComment example_domainToASCII example_stringify ''/proj''
      example_source_map ''/proj/src'' =
     Inr (example_source_map\<lparr>sources :=
            [''a.scss'', ''my dir/_real.scss'', ''../node_modules/lib/_theme.scss'']\<rparr>,
          ''/*# sourceMappingURL=data:application/json;charset=utf-8;base64,''
          @ ''e3NvdXJjZXM6W2Euc2NzcyxteSBkaXIvX3JlYWwuc2NzcywuLi9ub2RlX21vZHVsZXMvbGliL190aGVtZS5zY3NzXSxtYXBwaW5nczpBQUFBfQ==''
          @ '' */'')"
    by (simp add: sourceMapToUrlComment_def example_rewrite example_serialized example_payload
        Let_def)
  show ?thesis
    using source_map_frame [where idna = example_domainToASCII and stringify = example_stringify
        and wd = "''/proj''" and sm = example_source_map and root = "''/proj/src''"]
    by (simp add: r example_payload example_serialized)
qed

text \<open>
  C8, as amended. The rewriting of the sources is not idempotent: it reads every
  source as a file URL, and a source with no URL scheme, as a path relative to the
  output directory is, makes \<^verbatim>\<open>sourceMapToUrlComment\<close> throw instead of leaving
  the path as it is. What it throws is the \<^verbatim>\<open>TypeError\<close> of that source, unless
  \<^verbatim>\<open>fileURLToPath\<close> has thrown a \<^verbatim>\<open>URIError\<close> before, on a file URL with a
  malformed escape; on a map whose sources all have no scheme it is a \<^verbatim>\<open>TypeError\<close>.
\<close>

theorem rewrite_rejects_sources_without_scheme:
  assumes "source \<in> set (sources sm)" and "url_scheme source = None"
  shows "\<exists>e. sourceMapToUrlComment idna stringify wd sm root = Inl e \<and>
             (e = JsRuntimeError ''TypeError'' \<or> e = JsRuntimeError ''URIError'') \<and>
             ((\<forall>s \<in> set (sources sm). url_scheme s = None) \<longrightarrow>
                e = JsRuntimeError ''TypeError'') \<and>
             ((\<forall>s \<in> set (sources sm).
                 fileURLToPath_string idna s \<noteq> Inl (JsRuntimeError ''URIError'')) \<longrightarrow>
                e = JsRuntimeError ''TypeError'')"
proof -
  obtain e where e: "rewrite_sources idna wd root (sources sm) = Inl e"
    using rewrite_sources_no_scheme [OF assms] by blast
  then obtain s where s: "s \<in> set (sources sm)" "fileURLToPath_string idna s = Inl e"
    using rewrite_sources_Inl by blast
  have kind: "e = JsRuntimeError ''TypeError'' \<or> e = JsRuntimeError ''URIError''"
    using fileURLToPath_string_Inl [OF s(2)] .
  have relative_paths: "e = JsRuntimeError ''TypeError''"
    if "\<forall>s \<in> set (sources sm). url_scheme s = None"
    using that s fileURLToPath_string_no_scheme [of s idna] by simp
  have no_escape: "e = JsRuntimeError ''TypeError''"
    if "\<forall>s \<in> set (sources sm). fileURLToPath_string idna s \<noteq> Inl (JsRuntimeError ''URIError'')"
    using that s kind by auto
  have "sourceMapToUrlComment idna stringify wd sm root = Inl e"
    using e by (simp add: sourceMapToUrlComment_def)
  then show ?thesis
    using kind relative_paths no_escape by blast
qed

theorem rewrite_rejects_sources_without_scheme_witness:
  "''a.scss'' \<in> set (sources (example_source_map\<lparr>sources := [''a.scss'']\<rparr>)) \<and>
   url_scheme ''a.scss'' = None \<and>
   sourceMapToUrlComment example_domainToASCII example_stringify ''/proj''
     (example_source_map\<lparr>sources := [''a.scss'']\<rparr>) ''/proj/src'' =
     Inl (JsRuntimeError ''TypeError'')"
proof -
  have m: "''a.scss'' \<in> set (sources (example_source_map\<lparr>sources := [''a.scss'']\<rparr>))"
    by simp
  have n: "url_scheme ''a.scss'' = None"
    by code_simp
  have a: "\<forall>s \<in> set (sources (example_source_map\<lparr>sources := [''a.scss'']\<rparr>)). url_scheme s = None"
    using n by simp
  show ?thesis
    using rewrite_rejects_sources_without_scheme [OF m n, where idna = example_domainToASCII
        and stringify = example_stringify and wd = "''/proj''" and root = "''/proj/src''"]
      m n a
    by auto
qed

text \<open>
  As the specification states it, C8 does not hold: the source
  \<^verbatim>\<open>file:///proj/src/a.scss\<close> is rewritten
  to \<^verbatim>\<open>a.scss\<close>, relative to \<^verbatim>\<open>/proj/src\<close>, and rewriting \<^verbatim>\<open>a.scss\<close> again
  throws.
\<close>

theorem rewrite_not_idempotent_counterexample:
  "rewrite_sources example_domainToASCII ''/proj'' ''/proj/src'' [''file:///proj/src/a.scss''] =
     Inr [''a.scss''] \<and>
   rewrite_sources example_domainToASCII ''/proj'' ''/proj/src'' [''a.scss''] =
     Inl (JsRuntimeError ''TypeError'') \<and>
   sourceMapToUrlComment example_domainToASCII example_stringify ''/proj''
     (example_source_map\<lparr>sources := [''a.scss'']\<rparr>) ''/proj/src'' =
     Inl (JsRuntimeError ''TypeError'')"
proof -
  have a: "rewrite_sources example_domainToASCII ''/proj'' ''/proj/src''
      [''file:///proj/src/a.scss''] = Inr [''a.scss'']"
    by code_simp
  have b: "rewrite_sources example_domainToASCII ''/proj'' ''/proj/src'' [''a.scss''] =
      Inl (JsRuntimeError ''TypeError'')"
    by code_simp
  show ?thesis
    using a b by (simp add: sourceMapToUrlComment_def)
qed

subsection \<open>The cache\<close>

lemma compileString_calls:
  "snd (compileString h data (Some fp) syntax options) = [(data, sassOptions h fp syntax options)]"
  by (simp add: compileString_def Let_def split: prod.splits)

lemma compileString_undefined_path:
  "compileString h data None syntax options = (Inl (JsRuntimeError ''TypeError''), [])"
  by (simp add: compileString_def catch_error_def not_sass_runtime_error)

lemma onLoad_file_hit:
  "optional_get st p = Some r \<Longrightarrow> onLoad_file h options st p = (Inr r, st)"
  by (simp add: onLoad_file_def)

lemma onLoad_file_miss:
  assumes "optional_get st p = None" and "readFile h p = Inr data"
  shows "\<exists>syntax.
    fst (onLoad_file h options st p) = fst (compileString h data (Some p) syntax options) \<and>
    compilations (snd (onLoad_file h options st p)) =
      compilations st @ [(data, sassOptions h p syntax options)] \<and>
    cache (snd (onLoad_file h options st p)) =
      (case fst (compileString h data (Some p) syntax options) of
         Inl e \<Rightarrow> cache st
       | Inr r \<Rightarrow> if errors r = None
                  then (case cache st of None \<Rightarrow> None | Some c \<Rightarrow> Some (c(p \<mapsto> r)))
                  else cache st)"
proof -
  let ?syn = "if toLowerCase (extname p) = ''.sass'' then indented else scss"
  obtain out calls where c: "compileString h data (Some p) ?syn options = (out, calls)"
    by (cases "compileString h data (Some p) ?syn options")
  have calls: "calls = [(data, sassOptions h p ?syn options)]"
    using compileString_calls [of h data p ?syn options] c by simp
  show ?thesis
    apply (rule exI [of _ ?syn])
    using assms c calls
    by (auto simp: onLoad_file_def Let_def optional_put_def cache_put_def
        split: sum.splits option.splits)
qed

lemma onLoad_component_hit:
  "inlineComponentData options = Some m \<Longrightarrow> m p = Some data \<Longrightarrow> optional_get st data = Some r \<Longrightarrow>
   onLoad_component h options st p = (Inr r, st)"
  by (simp add: onLoad_component_def)

lemma onLoad_component_miss:
  assumes "inlineComponentData options = Some m" and "m p = Some data"
    and "optional_get st data = None"
    and "js_index (take 3 (js_split CHR '';'' p)) 2 = Some fp"
  shows "\<exists>syntax.
    fst (onLoad_component h options st p) = fst (compileString h data (Some fp) syntax options) \<and>
    compilations (snd (onLoad_component h options st p)) =
      compilations st @ [(data, sassOptions h fp syntax options)] \<and>
    cache (snd (onLoad_component h options st p)) =
      (case fst (compileString h data (Some fp) syntax options) of
         Inl e \<Rightarrow> cache st
       | Inr r \<Rightarrow> if errors r = None
                  then (case cache st of None \<Rightarrow> None | Some c \<Rightarrow> Some (c(data \<mapsto> r)))
                  else cache st)"
proof -
  let ?syn = "if js_index (take 3 (js_split CHR '';'' p)) 0 = Some ''sass'' then indented else scss"
  obtain out calls where c: "compileString h data (Some fp) ?syn options = (out, calls)"
    by (cases "compileString h data (Some fp) ?syn options")
  have calls: "calls = [(data, sassOptions h fp ?syn options)]"
    using compileString_calls [of h data fp ?syn options] c by simp
  show ?thesis
    apply (rule exI [of _ ?syn])
    using assms c calls
    by (auto simp: onLoad_component_def Let_def optional_put_def cache_put_def
        split: sum.splits option.splits)
qed

lemma onLoad_component_no_path:
  assumes "inlineComponentData options = Some m" and "m p = Some data"
    and "optional_get st data = None"
    and "js_index (take 3 (js_split CHR '';'' p)) 2 = None"
  shows "onLoad_component h options st p = (Inl (JsRuntimeError ''TypeError''), st)"
  using assms by (simp add: onLoad_component_def Let_def compileString_undefined_path)

lemma onLoad_file_compiled:
  assumes miss: "optional_get st p = None"
    and run: "onLoad_file h options st p = (Inr r, st')"
  shows "(errors r \<noteq> None \<longrightarrow> cache st' = cache st) \<and>
         (errors r = None \<longrightarrow> (\<forall>c. cache st = Some c \<longrightarrow> cache st' = Some (c(p \<mapsto> r))))"
proof -
  obtain data where data: "readFile h p = Inr data"
    using miss run by (cases "readFile h p") (auto simp: onLoad_file_def)
  obtain syn where
    out: "fst (onLoad_file h options st p) = fst (compileString h data (Some p) syn options)"
    and c: "cache (snd (onLoad_file h options st p)) =
      (case fst (compileString h data (Some p) syn options) of
         Inl e \<Rightarrow> cache st
       | Inr r \<Rightarrow> if errors r = None
                  then (case cache st of None \<Rightarrow> None | Some c \<Rightarrow> Some (c(p \<mapsto> r)))
                  else cache st)"
    using onLoad_file_miss [OF miss data, of options] by blast
  have "fst (compileString h data (Some p) syn options) = Inr r"
    using out run by simp
  then show ?thesis
    using c run by simp
qed

lemma onLoad_file_compiles:
  assumes "optional_get st p = None" and "readFile h p = Inr data"
  shows "length (compilations (snd (onLoad_file h options st p))) = Suc (length (compilations st))"
  using onLoad_file_miss [OF assms, of options] by auto

lemma onLoad_component_path:
  assumes "inlineComponentData options = Some m" and "m q = Some data"
    and "optional_get st data = None"
    and "onLoad_component h options st q = (Inr r, st')"
  shows "\<exists>fp. js_index (take 3 (js_split CHR '';'' q)) 2 = Some fp"
proof (cases "js_index (take 3 (js_split CHR '';'' q)) 2")
  case None
  from onLoad_component_no_path [OF assms(1,2,3) None, of h] assms(4) show ?thesis by simp
next
  case (Some fp)
  then show ?thesis by blast
qed

lemma onLoad_component_compiled:
  assumes data: "inlineComponentData options = Some m" "m q = Some data"
    and miss: "optional_get st data = None"
    and run: "onLoad_component h options st q = (Inr r, st')"
  shows "(errors r \<noteq> None \<longrightarrow> cache st' = cache st) \<and>
         (errors r = None \<longrightarrow> (\<forall>c. cache st = Some c \<longrightarrow> cache st' = Some (c(data \<mapsto> r))))"
proof -
  obtain fp where fp: "js_index (take 3 (js_split CHR '';'' q)) 2 = Some fp"
    using onLoad_component_path [OF data miss run] by blast
  obtain syn where
    out: "fst (onLoad_component h options st q) =
          fst (compileString h data (Some fp) syn options)"
    and c: "cache (snd (onLoad_component h options st q)) =
      (case fst (compileString h data (Some fp) syn options) of
         Inl e \<Rightarrow> cache st
       | Inr r \<Rightarrow> if errors r = None
                  then (case cache st of None \<Rightarrow> None | Some c \<Rightarrow> Some (c(data \<mapsto> r)))
                  else cache st)"
    using onLoad_component_miss [OF data miss fp, of h] by blast
  have "fst (compileString h data (Some fp) syn options) = Inr r"
    using out run by simp
  then show ?thesis
    using c run by simp
qed

lemma onLoad_component_compiles:
  assumes "inlineComponentData options = Some m" and "m q = Some data"
    and "optional_get st data = None"
    and "js_index (take 3 (js_split CHR '';'' q)) 2 = Some fp"
  shows "length (compilations (snd (onLoad_component h options st q))) =
         Suc (length (compilations st))"
  using onLoad_component_miss [OF assms, of h] by auto

lemma onLoad_file_again:
  assumes c: "cache st = Some c"
    and run: "onLoad_file h options st p = (Inr r, st')"
    and ok: "errors r = None"
  shows "optional_get st' p = Some r"
proof (cases "optional_get st p")
  case None
  then have "cache st' = Some (c(p \<mapsto> r))"
    using onLoad_file_compiled [OF None run] c ok by blast
  then show ?thesis
    by (simp add: optional_get_def cache_get_def)
next
  case (Some r0)
  then show ?thesis
    using onLoad_file_hit [OF Some, of h options] run by simp
qed

lemma onLoad_component_data:
  assumes "onLoad_component h options st q = (Inr r, st')"
  shows "\<exists>m data. inlineComponentData options = Some m \<and> m q = Some data"
  using assms by (auto simp: onLoad_component_def split: option.splits)

lemma onLoad_component_again:
  assumes c: "cache st = Some c"
    and data: "inlineComponentData options = Some m" "m q = Some data"
    and run: "onLoad_component h options st q = (Inr r, st')"
    and ok: "errors r = None"
  shows "optional_get st' data = Some r"
proof (cases "optional_get st data")
  case None
  then have "cache st' = Some (c(data \<mapsto> r))"
    using onLoad_component_compiled [OF data None run] c ok by blast
  then show ?thesis
    by (simp add: optional_get_def cache_get_def)
next
  case (Some r0)
  then show ?thesis
    using onLoad_component_hit [OF data Some, of h] run by simp
qed

lemma empty_state_miss: "optional_get empty_state key = None"
  by (simp add: optional_get_def empty_state_def cache_get_def)

lemma empty_state_cache: "cache empty_state = Some Map.empty"
  by (simp add: empty_state_def)

lemma example_data:
  "inlineComponentData (example_options sm) =
     Some [''scss;comp-1;/proj/src/comp.ts'' \<mapsto> ''a { b: c }'',
           ''scss;comp-2;/proj/src/comp.ts'' \<mapsto> ''a {'']"
  by (simp add: example_options_def)

text \<open>
  C1. Take a load that misses the cache, so that the handler compiles, and returns a
  result. If the result carries errors the handler leaves the cache as it was, and the
  next load of the same identity calls the compiler once more (for a file, when the
  file can be read; the host of the next load is any host). If the result carries no
  errors and the plugin has a cache, the handler stores the result under the request's
  identity: the path for the file handler, the inline text for the component handler.
\<close>

theorem errors_never_cached:
  "(\<forall>r st'. optional_get st p = None \<longrightarrow> onLoad_file h options st p = (Inr r, st') \<longrightarrow>
      (errors r \<noteq> None \<longrightarrow>
         cache st' = cache st \<and>
         (\<forall>h2 data2. readFile h2 p = Inr data2 \<longrightarrow>
            length (compilations (snd (onLoad_file h2 options st' p))) =
            Suc (length (compilations st')))) \<and>
      (errors r = None \<longrightarrow> (\<forall>c. cache st = Some c \<longrightarrow> cache st' = Some (c(p \<mapsto> r))))) \<and>
   (\<forall>m data r st'.
      inlineComponentData options = Some m \<longrightarrow> m q = Some data \<longrightarrow>
      optional_get st data = None \<longrightarrow> onLoad_component h options st q = (Inr r, st') \<longrightarrow>
      (errors r \<noteq> None \<longrightarrow>
         cache st' = cache st \<and>
         (\<forall>h2. length (compilations (snd (onLoad_component h2 options st' q))) =
               Suc (length (compilations st')))) \<and>
      (errors r = None \<longrightarrow> (\<forall>c. cache st = Some c \<longrightarrow> cache st' = Some (c(data \<mapsto> r)))))"
proof -
  have on_file: "errors r \<noteq> None \<longrightarrow>
         cache st' = cache st \<and>
         (\<forall>h2 data2. readFile h2 p = Inr data2 \<longrightarrow>
            length (compilations (snd (onLoad_file h2 options st' p))) =
            Suc (length (compilations st')))"
    and on_file_put: "errors r = None \<longrightarrow> (\<forall>c. cache st = Some c \<longrightarrow> cache st' = Some (c(p \<mapsto> r)))"
    if miss: "optional_get st p = None" and run: "onLoad_file h options st p = (Inr r, st')"
    for r st'
  proof -
    note compiled = onLoad_file_compiled [OF miss run]
    show "errors r = None \<longrightarrow> (\<forall>c. cache st = Some c \<longrightarrow> cache st' = Some (c(p \<mapsto> r)))"
      using compiled by blast
    show "errors r \<noteq> None \<longrightarrow>
         cache st' = cache st \<and>
         (\<forall>h2 data2. readFile h2 p = Inr data2 \<longrightarrow>
            length (compilations (snd (onLoad_file h2 options st' p))) =
            Suc (length (compilations st')))"
    proof (intro impI conjI allI)
      assume e: "errors r \<noteq> None"
      show same: "cache st' = cache st"
        using e compiled by blast
      fix h2 :: Host and data2
      assume rd: "readFile h2 p = Inr data2"
      have "optional_get st' p = None"
        using miss same by (simp add: optional_get_def)
      then show "length (compilations (snd (onLoad_file h2 options st' p))) =
            Suc (length (compilations st'))"
        using onLoad_file_compiles rd by blast
    qed
  qed
  have on_component: "errors r \<noteq> None \<longrightarrow>
         cache st' = cache st \<and>
         (\<forall>h2. length (compilations (snd (onLoad_component h2 options st' q))) =
               Suc (length (compilations st')))"
    and on_component_put:
      "errors r = None \<longrightarrow> (\<forall>c. cache st = Some c \<longrightarrow> cache st' = Some (c(data \<mapsto> r)))"
    if data: "inlineComponentData options = Some m" "m q = Some data"
      and miss: "optional_get st data = None"
      and run: "onLoad_component h options st q = (Inr r, st')"
    for m data r st'
  proof -
    note compiled = onLoad_component_compiled [OF data miss run]
    show "errors r = None \<longrightarrow> (\<forall>c. cache st = Some c \<longrightarrow> cache st' = Some (c(data \<mapsto> r)))"
      using compiled by blast
    show "errors r \<noteq> None \<longrightarrow>
         cache st' = cache st \<and>
         (\<forall>h2. length (compilations (snd (onLoad_component h2 options st' q))) =
               Suc (length (compilations st')))"
    proof (intro impI conjI allI)
      assume e: "errors r \<noteq> None"
      show same: "cache st' = cache st"
        using e compiled by blast
      fix h2 :: Host
      have miss': "optional_get st' data = None"
        using miss same by (simp add: optional_get_def)
      obtain fp where fp: "js_index (take 3 (js_split CHR '';'' q)) 2 = Some fp"
        using onLoad_component_path [OF data miss run] by blast
      show "length (compilations (snd (onLoad_component h2 options st' q))) =
               Suc (length (compilations st'))"
        using onLoad_component_compiles [OF data miss' fp] by blast
    qed
  qed
  show ?thesis
    using on_file on_file_put on_component on_component_put by blast
qed

theorem errors_never_cached_witness:
  "(\<exists>r st'. onLoad_file example_host (example_options False) empty_state ''/proj/src/bad.scss'' =
              (Inr r, st') \<and>
      errors r = Some [\<lparr>msg_text = ''expected }'', msg_location = None, msg_notes = None\<rparr>] \<and>
      cache st' = cache empty_state \<and>
      length (compilations (snd (onLoad_file example_host (example_options False) st'
                                   ''/proj/src/bad.scss''))) = Suc (length (compilations st'))) \<and>
   (\<exists>r st'. onLoad_file example_host (example_options False) empty_state ''/proj/src/a.scss'' =
              (Inr r, st') \<and>
      errors r = None \<and> cache st' = Some [''/proj/src/a.scss'' \<mapsto> r]) \<and>
   (\<exists>r st'. onLoad_component example_host (example_options False) empty_state
              ''scss;comp-2;/proj/src/comp.ts'' = (Inr r, st') \<and>
      errors r = Some [\<lparr>msg_text = ''expected }'', msg_location = None, msg_notes = None\<rparr>] \<and>
      cache st' = cache empty_state \<and>
      length (compilations (snd (onLoad_component example_host (example_options False) st'
                                   ''scss;comp-2;/proj/src/comp.ts''))) =
        Suc (length (compilations st'))) \<and>
   (\<exists>r st'. onLoad_component example_host (example_options False) empty_state
              ''scss;comp-1;/proj/src/comp.ts'' = (Inr r, st') \<and>
      errors r = None \<and> cache st' = Some [''a { b: c }'' \<mapsto> r])"
proof -
  let ?h = example_host and ?o = "example_options False"
  let ?bad = "''/proj/src/bad.scss''" and ?good = "''/proj/src/a.scss''"
  let ?c1 = "''scss;comp-1;/proj/src/comp.ts''" and ?c2 = "''scss;comp-2;/proj/src/comp.ts''"
  note T = errors_never_cached [of empty_state _ ?h ?o]
  have rd: "readFile ?h ?bad = Inr ''a {''"
    by (simp add: example_host_def example_readFile_def)
  have d1: "[?c1 \<mapsto> ''a { b: c }'', ?c2 \<mapsto> ''a {''] ?c1 = Some ''a { b: c }''"
    and d2: "[?c1 \<mapsto> ''a { b: c }'', ?c2 \<mapsto> ''a {''] ?c2 = Some ''a {''"
    by simp_all
  have "(case fst (onLoad_file ?h ?o empty_state ?bad) of
           Inr r \<Rightarrow> errors r = Some [\<lparr>msg_text = ''expected }'', msg_location = None, msg_notes = None\<rparr>]
         | Inl e \<Rightarrow> False)"
    by code_simp
  then obtain r1 where e1: "fst (onLoad_file ?h ?o empty_state ?bad) = Inr r1"
      "errors r1 = Some [\<lparr>msg_text = ''expected }'', msg_location = None, msg_notes = None\<rparr>]"
    by (auto split: sum.splits)
  have "(case fst (onLoad_file ?h ?o empty_state ?good) of
           Inr r \<Rightarrow> errors r = None
         | Inl e \<Rightarrow> False)"
    by code_simp
  then obtain r2 where e2: "fst (onLoad_file ?h ?o empty_state ?good) = Inr r2"
      "errors r2 = None"
    by (auto split: sum.splits)
  have "(case fst (onLoad_component ?h ?o empty_state ?c2) of
           Inr r \<Rightarrow> errors r = Some [\<lparr>msg_text = ''expected }'', msg_location = None, msg_notes = None\<rparr>]
         | Inl e \<Rightarrow> False)"
    by code_simp
  then obtain r3 where e3: "fst (onLoad_component ?h ?o empty_state ?c2) = Inr r3"
      "errors r3 = Some [\<lparr>msg_text = ''expected }'', msg_location = None, msg_notes = None\<rparr>]"
    by (auto split: sum.splits)
  have "(case fst (onLoad_component ?h ?o empty_state ?c1) of
           Inr r \<Rightarrow> errors r = None
         | Inl e \<Rightarrow> False)"
    by code_simp
  then obtain r4 where e4: "fst (onLoad_component ?h ?o empty_state ?c1) = Inr r4"
      "errors r4 = None"
    by (auto split: sum.splits)
  obtain s1 where s1: "onLoad_file ?h ?o empty_state ?bad = (Inr r1, s1)"
    using e1(1) by (cases "onLoad_file ?h ?o empty_state ?bad") simp
  obtain s2 where s2: "onLoad_file ?h ?o empty_state ?good = (Inr r2, s2)"
    using e2(1) by (cases "onLoad_file ?h ?o empty_state ?good") simp
  obtain s3 where s3: "onLoad_component ?h ?o empty_state ?c2 = (Inr r3, s3)"
    using e3(1) by (cases "onLoad_component ?h ?o empty_state ?c2") simp
  obtain s4 where s4: "onLoad_component ?h ?o empty_state ?c1 = (Inr r4, s4)"
    using e4(1) by (cases "onLoad_component ?h ?o empty_state ?c1") simp
  have a: "cache s1 = cache empty_state \<and>
      length (compilations (snd (onLoad_file ?h ?o s1 ?bad))) = Suc (length (compilations s1))"
  proof -
    from T [of ?bad ?c2, THEN conjunct1, rule_format, OF empty_state_miss s1] e1(2)
    have "cache s1 = cache empty_state \<and>
         (\<forall>h2 data2. readFile h2 ?bad = Inr data2 \<longrightarrow>
            length (compilations (snd (onLoad_file h2 ?o s1 ?bad))) =
            Suc (length (compilations s1)))"
      by simp
    with rd show ?thesis by blast
  qed
  have b: "cache s2 = Some [?good \<mapsto> r2]"
    using T [of ?good ?c2, THEN conjunct1, rule_format, OF empty_state_miss s2] e2(2)
      empty_state_cache by simp
  have c: "cache s3 = cache empty_state \<and>
      length (compilations (snd (onLoad_component ?h ?o s3 ?c2))) = Suc (length (compilations s3))"
    using T [of ?bad ?c2, THEN conjunct2, rule_format, OF example_data d2 empty_state_miss s3]
      e3(2) by simp
  have d: "cache s4 = Some [''a { b: c }'' \<mapsto> r4]"
    using T [of ?bad ?c1, THEN conjunct2, rule_format, OF example_data d1 empty_state_miss s4]
      e4(2) empty_state_cache by simp
  show ?thesis
    using a b c d s1 s2 s3 s4 e1(2) e2(2) e3(2) e4(2) by blast
qed

text \<open>
  C5. A load of an identity that is in the cache returns the cached result as it is
  and leaves the state as it was, the list of the calls to the compiler included. In
  particular, after a load that returned a result with no errors, with a cache, the
  next load of the same identity returns the same result and does not call the
  compiler, whatever the host does then.
\<close>

theorem cached_result_returned:
  "(optional_get st p = Some r \<longrightarrow> onLoad_file h options st p = (Inr r, st)) \<and>
   (inlineComponentData options = Some m \<and> m q = Some data \<and> optional_get st data = Some r \<longrightarrow>
      onLoad_component h options st q = (Inr r, st)) \<and>
   (\<forall>c r' st' h2.
      cache st = Some c \<and> onLoad_file h options st p = (Inr r', st') \<and> errors r' = None \<longrightarrow>
      onLoad_file h2 options st' p = (Inr r', st')) \<and>
   (\<forall>c r' st' h2.
      cache st = Some c \<and> onLoad_component h options st q = (Inr r', st') \<and> errors r' = None \<longrightarrow>
      onLoad_component h2 options st' q = (Inr r', st'))"
proof (intro conjI allI impI)
  assume "optional_get st p = Some r"
  then show "onLoad_file h options st p = (Inr r, st)"
    by (rule onLoad_file_hit)
next
  assume "inlineComponentData options = Some m \<and> m q = Some data \<and> optional_get st data = Some r"
  then show "onLoad_component h options st q = (Inr r, st)"
    using onLoad_component_hit by blast
next
  fix c r' st' and h2 :: Host
  assume a: "cache st = Some c \<and> onLoad_file h options st p = (Inr r', st') \<and> errors r' = None"
  then have "optional_get st' p = Some r'"
    using onLoad_file_again by blast
  then show "onLoad_file h2 options st' p = (Inr r', st')"
    by (rule onLoad_file_hit)
next
  fix c r' st' and h2 :: Host
  assume a: "cache st = Some c \<and> onLoad_component h options st q = (Inr r', st') \<and> errors r' = None"
  then obtain m' data' where d: "inlineComponentData options = Some m'" "m' q = Some data'"
    using onLoad_component_data by blast
  have "optional_get st' data' = Some r'"
    using onLoad_component_again [OF _ d] a by blast
  then show "onLoad_component h2 options st' q = (Inr r', st')"
    using onLoad_component_hit [OF d] by blast
qed

theorem cached_result_returned_witness:
  "(\<exists>r st'. onLoad_file example_host (example_options False) empty_state ''/proj/src/a.scss'' =
              (Inr r, st') \<and>
      errors r = None \<and>
      optional_get st' ''/proj/src/a.scss'' = Some r \<and>
      onLoad_file example_host (example_options False) st' ''/proj/src/a.scss'' = (Inr r, st')) \<and>
   (\<exists>r st'. onLoad_component example_host (example_options False) empty_state
              ''scss;comp-1;/proj/src/comp.ts'' = (Inr r, st') \<and>
      errors r = None \<and>
      optional_get st' ''a { b: c }'' = Some r \<and>
      onLoad_component example_host (example_options False) st'
        ''scss;comp-1;/proj/src/comp.ts'' = (Inr r, st'))"
proof -
  let ?h = example_host and ?o = "example_options False"
  let ?good = "''/proj/src/a.scss''" and ?c1 = "''scss;comp-1;/proj/src/comp.ts''"
  let ?c2 = "''scss;comp-2;/proj/src/comp.ts''"
  have d1: "[?c1 \<mapsto> ''a { b: c }'', ?c2 \<mapsto> ''a {''] ?c1 = Some ''a { b: c }''"
    by simp
  have "(case fst (onLoad_file ?h ?o empty_state ?good) of
           Inr r \<Rightarrow> errors r = None
         | Inl e \<Rightarrow> False)"
    by code_simp
  then obtain r2 where e2: "fst (onLoad_file ?h ?o empty_state ?good) = Inr r2" "errors r2 = None"
    by (auto split: sum.splits)
  have "(case fst (onLoad_component ?h ?o empty_state ?c1) of
           Inr r \<Rightarrow> errors r = None
         | Inl e \<Rightarrow> False)"
    by code_simp
  then obtain r4 where e4: "fst (onLoad_component ?h ?o empty_state ?c1) = Inr r4" "errors r4 = None"
    by (auto split: sum.splits)
  obtain s2 where s2: "onLoad_file ?h ?o empty_state ?good = (Inr r2, s2)"
    using e2(1) by (cases "onLoad_file ?h ?o empty_state ?good") simp
  obtain s4 where s4: "onLoad_component ?h ?o empty_state ?c1 = (Inr r4, s4)"
    using e4(1) by (cases "onLoad_component ?h ?o empty_state ?c1") simp
  have g2: "optional_get s2 ?good = Some r2"
    using onLoad_file_again [OF empty_state_cache s2 e2(2)] .
  have g4: "optional_get s4 ''a { b: c }'' = Some r4"
    using onLoad_component_again [OF empty_state_cache example_data d1 s4 e4(2)] .
  note T = cached_result_returned [of s2 ?good r2 ?h ?o _ ?c1]
  have a: "onLoad_file ?h ?o s2 ?good = (Inr r2, s2)"
    using T [THEN conjunct1] g2 by simp
  note U = cached_result_returned [of s4 ?good r4 ?h ?o
      "[?c1 \<mapsto> ''a { b: c }'', ?c2 \<mapsto> ''a {'']" ?c1 "''a { b: c }''"]
  have b: "onLoad_component ?h ?o s4 ?c1 = (Inr r4, s4)"
    using U [THEN conjunct2, THEN conjunct1] g4 example_data d1 by simp
  show ?thesis
    using a b s2 s4 e2(2) e4(2) g2 g4 by blast
qed

subsection \<open>The importer\<close>

lemma js_split_not_Nil: "js_split sep s \<noteq> []"
  by (induction s) (auto split: list.splits)

lemma js_split_no_separator: "sep \<notin> set s \<Longrightarrow> js_split sep s = [s]"
  by (induction s) auto

lemma join_ignores_empty: "join (d # [] # rest) = join (d # rest)"
  by (simp add: join_def)

lemma deep_import_path_join:
  "deep_import_path manifest (hasScope_of parts) (js_index parts 1) (drop 2 parts) =
   join (dirname manifest # drop (if hasScope_of parts then 2 else 1) parts)"
proof (cases parts)
  case Nil
  then show ?thesis
    by (simp add: deep_import_path_def hasScope_of_def truthy_def join_ignores_empty)
next
  case (Cons a rest)
  show ?thesis
  proof (cases rest)
    case Nil
    with Cons show ?thesis
      by (simp add: deep_import_path_def hasScope_of_def truthy_def join_ignores_empty)
  next
    case (Cons b more)
    with \<open>parts = a # rest\<close> show ?thesis
      by (cases "b = []")
         (simp_all add: deep_import_path_def truthy_def js_string_def join_ignores_empty)
  qed
qed

lemma packageName_of_take:
  "parts \<noteq> [] \<Longrightarrow>
   packageName_of parts = js_join ''/'' (take (if hasScope_of parts then 2 else 1) parts)"
proof (cases parts)
  case Nil
  assume "parts \<noteq> []"
  with Nil show ?thesis by simp
next
  case (Cons a rest)
  then show ?thesis
    by (cases rest) (simp_all add: packageName_of_def hasScope_of_def js_string_def)
qed

lemma resolveUrl_no_roots:
  "resolveUrl b url None =
     (resolve b url \<lparr>kind = ''import-rule'', resolveDir = absWorkingDir b\<rparr>,
      [(url, \<lparr>kind = ''import-rule'', resolveDir = absWorkingDir b\<rparr>)])"
  by (simp add: resolveUrl_def set_values_def Let_def)

lemma findFileUrl_None_iff:
  "fst (findFileUrl b wd url roots) = None \<longleftrightarrow>
     path (fst (resolveUrl b url None)) = [] \<and>
     path (fst (resolveUrl b (packageName_of (js_split CHR ''/'' url) @ ''/package.json'') None)) = [] \<and>
     path (fst (resolveUrl b url roots)) = [] \<and>
     path (fst (resolveUrl b (packageName_of (js_split CHR ''/'' url) @ ''/package.json'') roots)) = []"
  by (auto simp: findFileUrl_def Let_def split: prod.splits)



lemma js_split_append:
  "js_split sep (a @ sep # b) = js_split sep a @ js_split sep b"
proof (induction a)
  case Nil
  then show ?case by simp
next
  case (Cons c a)
  then show ?case
    using js_split_not_Nil [of sep a] by (cases "js_split sep a") auto
qed

lemma js_split_js_join:
  "list_all plain_segment xs \<Longrightarrow> xs \<noteq> [] \<Longrightarrow> js_split CHR ''/'' (js_join ''/'' xs) = xs"
proof (induction xs rule: induct_list012)
  case 1
  then show ?case by simp
next
  case (2 x)
  then show ?case by (simp add: plain_segment_def js_split_no_separator)
next
  case (3 x y zs)
  then show ?case
    using js_split_append [of "CHR ''/''" x "js_join ''/'' (y # zs)"]
    by (simp add: plain_segment_def js_split_no_separator)
qed

lemma normalizeString_plain:
  "list_all plain_segment xs \<Longrightarrow> normalizeString a res xs = rev res @ xs"
  by (induction xs arbitrary: res) (auto simp: plain_segment_def)

lemma js_join_not_Nil:
  "list_all plain_segment xs \<Longrightarrow> xs \<noteq> [] \<Longrightarrow> js_join ''/'' xs \<noteq> []"
  by (induction xs rule: induct_list012) (auto simp: plain_segment_def)

lemma js_join_last:
  "list_all plain_segment xs \<Longrightarrow> xs \<noteq> [] \<Longrightarrow> last (js_join ''/'' xs) \<noteq> CHR ''/''"
proof (induction xs rule: induct_list012)
  case 1
  then show ?case by simp
next
  case (2 x)
  then have "x \<noteq> []" and "CHR ''/'' \<notin> set x"
    by (simp_all add: plain_segment_def)
  then show ?case
    by (metis js_join.simps(2) last_in_set)
next
  case (3 x y zs)
  then have p: "list_all plain_segment (y # zs)"
    by simp
  have ne: "js_join ''/'' (y # zs) \<noteq> []"
    using js_join_not_Nil [OF p] by simp
  have "last (js_join ''/'' (y # zs)) \<noteq> CHR ''/''"
    using 3 p by simp
  then show ?case
    using ne by simp
qed

lemma js_join_append:
  "xs \<noteq> [] \<Longrightarrow> ys \<noteq> [] \<Longrightarrow> js_join sep (xs @ ys) = js_join sep xs @ sep @ js_join sep ys"
proof (induction xs rule: induct_list012)
  case 1
  then show ?case by simp
next
  case (2 x)
  then show ?case by (cases ys) simp_all
next
  case (3 x y zs)
  then show ?case by simp
qed

lemma endsWith_last: "s \<noteq> [] \<Longrightarrow> endsWith s c \<longleftrightarrow> last s = c"
  by (cases s rule: rev_cases) (simp_all add: endsWith_def)

lemma path_normalize_plain:
  assumes "list_all plain_segment xs"
  shows "path_normalize (CHR ''/'' # js_join ''/'' xs) = CHR ''/'' # js_join ''/'' xs"
proof (cases "xs = []")
  case True
  then show ?thesis
    by (simp add: path_normalize_def startsWith_def endsWith_def)
next
  case False
  note ne = js_join_not_Nil [OF assms False]
  have e: "\<not> endsWith (CHR ''/'' # js_join ''/'' xs) CHR ''/''"
    using js_join_last [OF assms False] ne by (simp add: endsWith_last)
  show ?thesis
    using ne e
    by (simp add: path_normalize_def startsWith_def Let_def js_split_js_join [OF assms False]
        normalizeString_plain [OF assms])
qed

lemma join_plain:
  assumes ds: "list_all plain_segment ds" and rs: "list_all plain_segment rs"
  shows "join ((CHR ''/'' # js_join ''/'' ds) # rs) = CHR ''/'' # js_join ''/'' (ds @ rs)"
proof -
  have f: "filter (\<lambda>arg. arg \<noteq> []) rs = rs"
    using rs by (induction rs) (auto simp: plain_segment_def)
  have all: "list_all plain_segment (ds @ rs)"
    using ds rs by simp
  show ?thesis
  proof (cases "rs = []")
    case True
    then show ?thesis
      using path_normalize_plain [OF ds] by (simp add: join_def)
  next
    case rs_ne: False
    then obtain r rs' where r: "rs = r # rs'"
      by (cases rs) auto
    show ?thesis
    proof (cases "ds = []")
      case True
      note ne = js_join_not_Nil [OF rs rs_ne]
      have e: "\<not> endsWith (''/'' @ ''/'' @ js_join ''/'' rs) CHR ''/''"
        using js_join_last [OF rs rs_ne] ne by (simp add: endsWith_last)
      have j: "js_join ''/'' (''/'' # rs) = ''/'' @ ''/'' @ js_join ''/'' rs"
        by (simp add: r)
      have "path_normalize (''/'' @ ''/'' @ js_join ''/'' rs) = CHR ''/'' # js_join ''/'' rs"
        using ne e
        by (simp add: path_normalize_def startsWith_def Let_def js_split_js_join [OF rs rs_ne]
            normalizeString_plain [OF rs])
      moreover have "js_join ''/'' ((CHR ''/'' # js_join ''/'' ds) # rs) =
          ''/'' @ ''/'' @ js_join ''/'' rs"
        using True by (simp add: r)
      ultimately show ?thesis
        using True by (simp add: join_def f del: js_join.simps)
    next
      case False
      have j: "js_join ''/'' ((CHR ''/'' # js_join ''/'' ds) # rs) =
          CHR ''/'' # js_join ''/'' (ds @ rs)"
        using False by (simp add: r js_join_append)
      show ?thesis
        using path_normalize_plain [OF all] by (simp add: join_def f j del: js_join.simps)
    qed
  qed
qed

lemma normalizeString_plain_slash:
  "list_all plain_segment xs \<Longrightarrow> normalizeString a res (xs @ [[]]) = rev res @ xs"
  by (induction xs arbitrary: res) (auto simp: plain_segment_def)

lemma path_resolve_plain:
  assumes "list_all plain_segment xs"
  shows "path_resolve wd (CHR ''/'' # js_join ''/'' xs) = CHR ''/'' # js_join ''/'' xs"
proof (cases "xs = []")
  case True
  then show ?thesis
    by (simp add: path_resolve_def startsWith_def)
next
  case False
  have s: "js_split CHR ''/'' (js_join ''/'' xs @ ''/'') = xs @ [[]]"
    using js_split_append [of "CHR ''/''" "js_join ''/'' xs" "[]"]
      js_split_js_join [OF assms False] by simp
  show ?thesis
    by (simp add: path_resolve_def startsWith_def Let_def s
        normalizeString_plain_slash [OF assms])
qed

lemma pathToFileURL_plain:
  assumes "list_all plain_segment xs"
  shows "fileURLToPath (pathToFileURL wd (CHR ''/'' # js_join ''/'' xs)) = CHR ''/'' # js_join ''/'' xs"
proof -
  have "\<not> endsWith (CHR ''/'' # js_join ''/'' xs) CHR ''/'' \<or> xs = []"
    using js_join_last [OF assms] js_join_not_Nil [OF assms]
    by (auto simp: endsWith_last)
  then show ?thesis
    using path_resolve_plain [OF assms, of wd]
    by (auto simp: pathToFileURL_def fileURLToPath_def startsWith_def endsWith_def Let_def)
qed

lemma manifest_import:
  assumes parts: "js_split CHR ''/'' url = parts"
    and n: "n = (if hasScope_of parts then 2 else 1)"
    and name: "manifestUrl = js_join ''/'' (take n parts) @ ''/package.json''"
    and direct: "path (fst (resolveUrl b url None)) = []"
  shows "(path (fst (resolveUrl b manifestUrl None)) \<noteq> [] \<longrightarrow>
            findFileUrl b wd url roots =
              (Some (pathToFileURL wd
                 (join (dirname (path (fst (resolveUrl b manifestUrl None))) # drop n parts))),
               [(url, \<lparr>kind = ''import-rule'', resolveDir = absWorkingDir b\<rparr>),
                (manifestUrl, \<lparr>kind = ''import-rule'', resolveDir = absWorkingDir b\<rparr>)])) \<and>
         (path (fst (resolveUrl b manifestUrl None)) = [] \<and>
          path (fst (resolveUrl b url roots)) = [] \<and>
          path (fst (resolveUrl b manifestUrl roots)) \<noteq> [] \<longrightarrow>
            fst (findFileUrl b wd url roots) =
              Some (pathToFileURL wd
                 (join (dirname (path (fst (resolveUrl b manifestUrl roots))) # drop n parts))))"
proof -
  have ne: "parts \<noteq> []"
    using parts js_split_not_Nil by blast
  have m: "packageName_of parts @ ''/package.json'' = manifestUrl"
    using packageName_of_take [OF ne] n name by simp
  have p: "\<And>manifest.
      deep_import_path manifest (hasScope_of parts) (js_index parts (Suc 0)) (drop 2 parts) =
      join (dirname manifest # drop n parts)"
    using deep_import_path_join n by simp
  show ?thesis
    using direct
    by (auto simp: findFileUrl_def parts m p Let_def resolveUrl_no_roots split: prod.splits)
qed

lemma reported_file:
  assumes "list_all plain_segment ds" and "ds \<noteq> []"
    and "list_all plain_segment rest" and "rest \<noteq> []"
    and "D = CHR ''/'' # js_join ''/'' ds"
  shows "fileURLToPath (pathToFileURL wd (join (D # rest))) = D @ ''/'' @ js_join ''/'' rest"
proof -
  have "list_all plain_segment (ds @ rest)"
    using assms(1,3) by simp
  then have "fileURLToPath (pathToFileURL wd (CHR ''/'' # js_join ''/'' (ds @ rest))) =
      CHR ''/'' # js_join ''/'' (ds @ rest)"
    by (rule pathToFileURL_plain)
  then show ?thesis
    using join_plain [OF assms(1,3)] js_join_append [OF assms(2,4), of "''/''"] assms(5)
    by simp
qed

text \<open>
  C3, as amended. Take a specifier that the bundler does not resolve by itself. Its
  package name is made of its first two segments when the first starts with
  \<^verbatim>\<open>@\<close> (and there are two), and is its first segment otherwise. When the manifest
  of that package resolves from the working directory, the importer reports the join
  of the manifest's directory with the segments after the package name, having asked
  the resolver for the specifier and for the manifest only, never for the path it
  reports. When the manifest resolves only over the fallback roots, and the bundler's
  retry over them gives nothing, the importer reports the same join for that manifest.
  For a directory \<open>D\<close> that is an absolute path of plain segments, and plain
  remaining segments, the file of the reported URL is \<open>D\<close> followed by the
  remaining segments, a slash before each.
\<close>

theorem deep_import_reported:
  assumes parts: "js_split CHR ''/'' url = parts"
    and n: "n = (if hasScope_of parts then 2 else 1)"
    and name: "manifestUrl = js_join ''/'' (take n parts) @ ''/package.json''"
    and direct: "path (fst (resolveUrl b url None)) = []"
  shows "(path (fst (resolveUrl b manifestUrl None)) \<noteq> [] \<longrightarrow>
            findFileUrl b wd url roots =
              (Some (pathToFileURL wd
                 (join (dirname (path (fst (resolveUrl b manifestUrl None))) # drop n parts))),
               [(url, \<lparr>kind = ''import-rule'', resolveDir = absWorkingDir b\<rparr>),
                (manifestUrl, \<lparr>kind = ''import-rule'', resolveDir = absWorkingDir b\<rparr>)])) \<and>
         (path (fst (resolveUrl b manifestUrl None)) = [] \<and>
          path (fst (resolveUrl b url roots)) = [] \<and>
          path (fst (resolveUrl b manifestUrl roots)) \<noteq> [] \<longrightarrow>
            fst (findFileUrl b wd url roots) =
              Some (pathToFileURL wd
                 (join (dirname (path (fst (resolveUrl b manifestUrl roots))) # drop n parts)))) \<and>
         (\<forall>D ds. list_all plain_segment ds \<and> ds \<noteq> [] \<and> D = CHR ''/'' # js_join ''/'' ds \<and>
                 list_all plain_segment (drop n parts) \<and> drop n parts \<noteq> [] \<longrightarrow>
            fileURLToPath (pathToFileURL wd (join (D # drop n parts))) =
              D @ ''/'' @ js_join ''/'' (drop n parts))"
  using manifest_import [OF assms] reported_file by blast

theorem deep_import_reported_witness:
  "findFileUrl example_build ''/proj'' ''@scope/pkg/sub/path'' None =
     (Some (FileURL ''proj/node_modules/@scope/pkg/sub/path''),
      [(''@scope/pkg/sub/path'', \<lparr>kind = ''import-rule'', resolveDir = Some ''/proj''\<rparr>),
       (''@scope/pkg/package.json'', \<lparr>kind = ''import-rule'', resolveDir = Some ''/proj''\<rparr>)]) \<and>
   findFileUrl example_build ''/proj'' ''pkg/sub/path'' None =
     (Some (FileURL ''proj/node_modules/pkg/sub/path''),
      [(''pkg/sub/path'', \<lparr>kind = ''import-rule'', resolveDir = Some ''/proj''\<rparr>),
       (''pkg/package.json'', \<lparr>kind = ''import-rule'', resolveDir = Some ''/proj''\<rparr>)]) \<and>
   fst (findFileUrl example_build ''/proj'' ''pnp/sub/path'' (Some [''/proj/.yarn/cache''])) =
     Some (FileURL ''proj/.yarn/cache/pnp/sub/path'') \<and>
   fileURLToPath (pathToFileURL ''/proj'' (join [''/proj/node_modules/pkg'', ''sub'', ''path''])) =
     ''/proj/node_modules/pkg'' @ ''/'' @ ''sub/path''"
proof -
  let ?b = example_build
  have wd: "absWorkingDir ?b = Some ''/proj''"
    by (simp add: example_build_def)
  have s1: "js_split CHR ''/'' ''@scope/pkg/sub/path'' = [''@scope'', ''pkg'', ''sub'', ''path'']"
    and s2: "js_split CHR ''/'' ''pkg/sub/path'' = [''pkg'', ''sub'', ''path'']"
    and s3: "js_split CHR ''/'' ''pnp/sub/path'' = [''pnp'', ''sub'', ''path'']"
    by code_simp+
  have n1: "2 = (if hasScope_of [''@scope'', ''pkg'', ''sub'', ''path''] then 2 else (1::nat))"
    and n2: "1 = (if hasScope_of [''pkg'', ''sub'', ''path''] then 2 else (1::nat))"
    and n3: "1 = (if hasScope_of [''pnp'', ''sub'', ''path''] then 2 else (1::nat))"
    by code_simp+
  have m1: "''@scope/pkg/package.json'' =
      js_join ''/'' (take 2 [''@scope'', ''pkg'', ''sub'', ''path'']) @ ''/package.json''"
    and m2: "''pkg/package.json'' = js_join ''/'' (take 1 [''pkg'', ''sub'', ''path'']) @ ''/package.json''"
    and m3: "''pnp/package.json'' = js_join ''/'' (take 1 [''pnp'', ''sub'', ''path'']) @ ''/package.json''"
    by code_simp+
  have d1: "path (fst (resolveUrl ?b ''@scope/pkg/sub/path'' None)) = []"
    and d2: "path (fst (resolveUrl ?b ''pkg/sub/path'' None)) = []"
    and d3: "path (fst (resolveUrl ?b ''pnp/sub/path'' None)) = []"
    by code_simp+
  have r1: "path (fst (resolveUrl ?b ''@scope/pkg/package.json'' None)) \<noteq> []"
    and r2: "path (fst (resolveUrl ?b ''pkg/package.json'' None)) \<noteq> []"
    and r3: "path (fst (resolveUrl ?b ''pnp/package.json'' None)) = [] \<and>
             path (fst (resolveUrl ?b ''pnp/sub/path'' (Some [''/proj/.yarn/cache'']))) = [] \<and>
             path (fst (resolveUrl ?b ''pnp/package.json'' (Some [''/proj/.yarn/cache'']))) \<noteq> []"
    by code_simp+
  have v1: "pathToFileURL ''/proj''
      (join (dirname (path (fst (resolveUrl ?b ''@scope/pkg/package.json'' None)))
             # drop 2 [''@scope'', ''pkg'', ''sub'', ''path''])) =
      FileURL ''proj/node_modules/@scope/pkg/sub/path''"
    and v2: "pathToFileURL ''/proj''
      (join (dirname (path (fst (resolveUrl ?b ''pkg/package.json'' None)))
             # drop 1 [''pkg'', ''sub'', ''path''])) =
      FileURL ''proj/node_modules/pkg/sub/path''"
    and v3: "pathToFileURL ''/proj''
      (join (dirname (path (fst (resolveUrl ?b ''pnp/package.json'' (Some [''/proj/.yarn/cache'']))))
             # drop 1 [''pnp'', ''sub'', ''path''])) =
      FileURL ''proj/.yarn/cache/pnp/sub/path''"
    by code_simp+
  have a: "findFileUrl ?b ''/proj'' ''@scope/pkg/sub/path'' None =
     (Some (FileURL ''proj/node_modules/@scope/pkg/sub/path''),
      [(''@scope/pkg/sub/path'', \<lparr>kind = ''import-rule'', resolveDir = Some ''/proj''\<rparr>),
       (''@scope/pkg/package.json'', \<lparr>kind = ''import-rule'', resolveDir = Some ''/proj''\<rparr>)])"
    using deep_import_reported [where wd = "''/proj''" and roots = None, OF s1 n1 m1 d1,
        THEN conjunct1, rule_format, OF r1]
    by (simp only: v1 wd)
  note T = deep_import_reported [where wd = "''/proj''", OF s2 n2 m2 d2]
  have b: "findFileUrl ?b ''/proj'' ''pkg/sub/path'' None =
     (Some (FileURL ''proj/node_modules/pkg/sub/path''),
      [(''pkg/sub/path'', \<lparr>kind = ''import-rule'', resolveDir = Some ''/proj''\<rparr>),
       (''pkg/package.json'', \<lparr>kind = ''import-rule'', resolveDir = Some ''/proj''\<rparr>)])"
    using T [where roots = None, THEN conjunct1, rule_format, OF r2]
    by (simp only: v2 wd)
  have c: "fst (findFileUrl ?b ''/proj'' ''pnp/sub/path'' (Some [''/proj/.yarn/cache''])) =
     Some (FileURL ''proj/.yarn/cache/pnp/sub/path'')"
    using deep_import_reported [where wd = "''/proj''" and roots = "Some [''/proj/.yarn/cache'']",
        OF s3 n3 m3 d3, THEN conjunct2, THEN conjunct1, rule_format, OF r3]
    by (simp only: v3)
  have p: "list_all plain_segment [''proj'', ''node_modules'', ''pkg''] \<and>
           [''proj'', ''node_modules'', ''pkg''] \<noteq> [] \<and>
           ''/proj/node_modules/pkg'' = CHR ''/'' # js_join ''/'' [''proj'', ''node_modules'', ''pkg''] \<and>
           list_all plain_segment (drop 1 [''pkg'', ''sub'', ''path'']) \<and>
           drop 1 [''pkg'', ''sub'', ''path''] \<noteq> []"
    by code_simp
  have d: "fileURLToPath (pathToFileURL ''/proj''
             (join [''/proj/node_modules/pkg'', ''sub'', ''path''])) =
           ''/proj/node_modules/pkg'' @ ''/'' @ ''sub/path''"
    using T [where roots = None, THEN conjunct2, THEN conjunct2, rule_format, OF p]
    by simp
  show ?thesis
    using a b c d by (intro conjI)
qed

text \<open>
  As the specification states it, C3 does not hold for a deep import that the bundler
  resolves by itself: the importer reports the bundler's path, whatever the manifest's
  directory is.
\<close>

theorem deep_import_counterexample:
  "path (fst (resolveUrl example_build ''both/package.json'' None)) =
     ''/proj/node_modules/both/package.json'' \<and>
   pathToFileURL ''/proj'' (join [dirname ''/proj/node_modules/both/package.json'', ''sub'', ''path'']) =
     FileURL ''proj/node_modules/both/sub/path'' \<and>
   fst (findFileUrl example_build ''/proj'' ''both/sub/path'' None) =
     Some (FileURL ''proj/node_modules/both/dist/sub/path.scss'') \<and>
   fst (findFileUrl example_build ''/proj'' ''both/sub/path'' None) \<noteq>
     Some (pathToFileURL ''/proj''
             (join [dirname ''/proj/node_modules/both/package.json'', ''sub'', ''path'']))"
  by code_simp

text \<open>
  C9, as amended. A specifier with no slash is its own package name. When the bundler
  does not resolve it by itself and its manifest resolves, the importer reports the
  directory that holds the manifest, with nothing appended: neither the manifest file
  nor a path below the package. For every specifier, the empty one included, the
  importer returns; it reports \<^verbatim>\<open>null\<close> exactly when none of its four requests
  to the resolver gives a path.
\<close>

theorem plain_package_name:
  "(CHR ''/'' \<notin> set url \<longrightarrow>
      packageName_of (js_split CHR ''/'' url) = url \<and>
      (path (fst (resolveUrl b url None)) = [] \<and>
       path (fst (resolveUrl b (url @ ''/package.json'') None)) \<noteq> [] \<longrightarrow>
         findFileUrl b wd url roots =
           (Some (pathToFileURL wd
                    (join [dirname (path (fst (resolveUrl b (url @ ''/package.json'') None)))])),
            [(url, \<lparr>kind = ''import-rule'', resolveDir = absWorkingDir b\<rparr>),
             (url @ ''/package.json'', \<lparr>kind = ''import-rule'', resolveDir = absWorkingDir b\<rparr>)])) \<and>
      (path (fst (resolveUrl b url None)) = [] \<and>
       path (fst (resolveUrl b (url @ ''/package.json'') None)) = [] \<and>
       path (fst (resolveUrl b url roots)) = [] \<and>
       path (fst (resolveUrl b (url @ ''/package.json'') roots)) \<noteq> [] \<longrightarrow>
         fst (findFileUrl b wd url roots) =
           Some (pathToFileURL wd
                   (join [dirname (path (fst (resolveUrl b (url @ ''/package.json'') roots)))])))) \<and>
   (fst (findFileUrl b wd url roots) = None \<longleftrightarrow>
      path (fst (resolveUrl b url None)) = [] \<and>
      path (fst (resolveUrl b (packageName_of (js_split CHR ''/'' url) @ ''/package.json'') None)) = [] \<and>
      path (fst (resolveUrl b url roots)) = [] \<and>
      path (fst (resolveUrl b (packageName_of (js_split CHR ''/'' url) @ ''/package.json'') roots)) = [])"
proof (intro conjI impI)
  assume plain: "CHR ''/'' \<notin> set url"
  then have parts: "js_split CHR ''/'' url = [url]"
    by (rule js_split_no_separator)
  have n: "1 = (if hasScope_of [url] then 2 else (1::nat))"
    by (simp add: hasScope_of_def)
  have m: "url @ ''/package.json'' = js_join ''/'' (take 1 [url]) @ ''/package.json''"
    by simp
  show "packageName_of (js_split CHR ''/'' url) = url"
    by (simp add: parts packageName_of_def hasScope_of_def js_string_def)
  { assume a: "path (fst (resolveUrl b url None)) = [] \<and>
       path (fst (resolveUrl b (url @ ''/package.json'') None)) \<noteq> []"
    then have d: "path (fst (resolveUrl b url None)) = []" by simp
    from manifest_import [where wd = wd and roots = roots, OF parts n m d, THEN conjunct1] a
    show "findFileUrl b wd url roots =
           (Some (pathToFileURL wd
                    (join [dirname (path (fst (resolveUrl b (url @ ''/package.json'') None)))])),
            [(url, \<lparr>kind = ''import-rule'', resolveDir = absWorkingDir b\<rparr>),
             (url @ ''/package.json'', \<lparr>kind = ''import-rule'', resolveDir = absWorkingDir b\<rparr>)])"
      by simp }
  { assume a: "path (fst (resolveUrl b url None)) = [] \<and>
       path (fst (resolveUrl b (url @ ''/package.json'') None)) = [] \<and>
       path (fst (resolveUrl b url roots)) = [] \<and>
       path (fst (resolveUrl b (url @ ''/package.json'') roots)) \<noteq> []"
    then have d: "path (fst (resolveUrl b url None)) = []" by simp
    from manifest_import [where wd = wd and roots = roots, OF parts n m d, THEN conjunct2] a
    show "fst (findFileUrl b wd url roots) =
           Some (pathToFileURL wd
                   (join [dirname (path (fst (resolveUrl b (url @ ''/package.json'') roots)))]))"
      by simp }
next
  show "fst (findFileUrl b wd url roots) = None \<longleftrightarrow>
      path (fst (resolveUrl b url None)) = [] \<and>
      path (fst (resolveUrl b (packageName_of (js_split CHR ''/'' url) @ ''/package.json'') None)) = [] \<and>
      path (fst (resolveUrl b url roots)) = [] \<and>
      path (fst (resolveUrl b (packageName_of (js_split CHR ''/'' url) @ ''/package.json'') roots)) = []"
    by (rule findFileUrl_None_iff)
qed

theorem plain_package_name_witness:
  "CHR ''/'' \<notin> set ''pkg'' \<and>
   findFileUrl example_build ''/proj'' ''pkg'' None =
     (Some (FileURL ''proj/node_modules/pkg''),
      [(''pkg'', \<lparr>kind = ''import-rule'', resolveDir = Some ''/proj''\<rparr>),
       (''pkg/package.json'', \<lparr>kind = ''import-rule'', resolveDir = Some ''/proj''\<rparr>)]) \<and>
   fst (findFileUrl example_build ''/proj'' [] None) = None"
proof -
  let ?b = example_build
  have wd: "absWorkingDir ?b = Some ''/proj''"
    by (simp add: example_build_def)
  have plain: "CHR ''/'' \<notin> set ''pkg''"
    by simp
  have r: "path (fst (resolveUrl ?b ''pkg'' None)) = [] \<and>
           path (fst (resolveUrl ?b (''pkg'' @ ''/package.json'') None)) \<noteq> []"
    by code_simp
  have v: "pathToFileURL ''/proj''
             (join [dirname (path (fst (resolveUrl ?b ''pkg/package.json'' None)))]) =
           FileURL ''proj/node_modules/pkg''"
    by code_simp
  have e: "path (fst (resolveUrl ?b [] None)) = [] \<and>
      path (fst (resolveUrl ?b (packageName_of (js_split CHR ''/'' []) @ ''/package.json'') None)) = [] \<and>
      path (fst (resolveUrl ?b [] None)) = [] \<and>
      path (fst (resolveUrl ?b (packageName_of (js_split CHR ''/'' []) @ ''/package.json'') None)) = []"
    by code_simp
  note T = plain_package_name [where b = ?b and wd = "''/proj''" and roots = None]
  have a: "findFileUrl ?b ''/proj'' ''pkg'' None =
     (Some (FileURL ''proj/node_modules/pkg''),
      [(''pkg'', \<lparr>kind = ''import-rule'', resolveDir = Some ''/proj''\<rparr>),
       (''pkg/package.json'', \<lparr>kind = ''import-rule'', resolveDir = Some ''/proj''\<rparr>)])"
    using T [where url = "''pkg''", THEN conjunct1, rule_format, OF plain,
        THEN conjunct2, THEN conjunct1, rule_format, OF r]
    by (simp add: v wd)
  have b: "fst (findFileUrl ?b ''/proj'' [] None) = None"
    using T [where url = "[]", THEN conjunct2] e by (rule iffD2)
  show ?thesis
    using plain a b by (intro conjI)
qed

text \<open>
  As the specification states it, C9 does not hold: for \<^verbatim>\<open>pkg\<close> the importer
  reports the directory of \<^verbatim>\<open>pkg/package.json\<close>, not that file.
\<close>

theorem plain_package_name_counterexample:
  "path (fst (resolveUrl example_build ''pkg/package.json'' None)) =
     ''/proj/node_modules/pkg/package.json'' \<and>
   fst (findFileUrl example_build ''/proj'' ''pkg'' None) = Some (FileURL ''proj/node_modules/pkg'') \<and>
   pathToFileURL ''/proj'' ''/proj/node_modules/pkg/package.json'' =
     FileURL ''proj/node_modules/pkg/package.json'' \<and>
   fst (findFileUrl example_build ''/proj'' ''pkg'' None) \<noteq>
     Some (pathToFileURL ''/proj'' ''/proj/node_modules/pkg/package.json'')"
  by code_simp

end
